theory Spec2Isabelle
  imports Main "HOL-Library.Multiset"
begin

section \<open>Data model of server.py\<close>

text \<open>
  Timestamps (\<^verbatim>\<open>datetime\<close>) are integers: ticks of the clock in the resolution the
  collection keeps. Identifiers (\<^verbatim>\<open>str(uuid.uuid4())\<close>) are strings.
\<close>

type_synonym datetime = int

datatype TaskStatus = TODO | IN_PROGRESS | DONE

datatype TaskPriority = HIGH | MEDIUM | LOW

text \<open>The string value of each member of the two \<^verbatim>\<open>str, Enum\<close> classes.\<close>

fun TaskStatus_value :: "TaskStatus \<Rightarrow> string" where
  "TaskStatus_value TODO = ''To Do''"
| "TaskStatus_value IN_PROGRESS = ''In Progress''"
| "TaskStatus_value DONE = ''Done''"

fun TaskPriority_value :: "TaskPriority \<Rightarrow> string" where
  "TaskPriority_value HIGH = ''High''"
| "TaskPriority_value MEDIUM = ''Medium''"
| "TaskPriority_value LOW = ''Low''"

record Subtask =
  id' :: string
  text' :: string
  completed :: bool

subsection \<open>Request bodies\<close>

text \<open>
  A member of a JSON request body is absent, \<^verbatim>\<open>null\<close>, or carries a value. The model
  classes decide what each case becomes: a field declared \<^verbatim>\<open>Optional[T] = d\<close> takes
  \<open>d\<close> when absent and \<^verbatim>\<open>None\<close> when null; a field declared \<^verbatim>\<open>T = d\<close> takes \<open>d\<close> when
  absent and rejects null; a field declared \<^verbatim>\<open>T\<close> is required.
\<close>

datatype 'a member = Absent | Null | Given 'a

record TaskCreate_body =
  title :: "string member"
  description :: "string member"
  due_date :: "datetime member"
  priority :: "TaskPriority member"
  category :: "string member"
  status :: "TaskStatus member"
  subtasks :: "Subtask list member"

record TaskUpdate_body =
  title :: "string member"
  description :: "string member"
  due_date :: "datetime member"
  priority :: "TaskPriority member"
  category :: "string member"
  status :: "TaskStatus member"
  subtasks :: "Subtask list member"

subsection \<open>Model classes\<close>

text \<open>
  \<^verbatim>\<open>TaskCreate\<close> and \<^verbatim>\<open>TaskUpdate\<close> after validation. Their fields are always written
  with the class name (\<open>TaskCreate.title\<close>); the plain names are those of \<^verbatim>\<open>Task\<close>.
\<close>

record TaskCreate =
  title :: string
  description :: "string option"
  due_date :: "datetime option"
  priority :: TaskPriority
  category :: "string option"
  status :: TaskStatus
  subtasks :: "Subtask list"

record TaskUpdate =
  title :: "string option"
  description :: "string option"
  due_date :: "datetime option"
  priority :: "TaskPriority option"
  category :: "string option"
  status :: "TaskStatus option"
  subtasks :: "Subtask list option"

record Task =
  id' :: string
  title :: string
  description :: "string option"
  due_date :: "datetime option"
  priority :: TaskPriority
  category :: "string option"
  status :: TaskStatus
  subtasks :: "Subtask list"
  created_at :: datetime
  updated_at :: datetime

text \<open>\<^verbatim>\<open>HTTPException(status_code=..., detail=...)\<close>.\<close>

record HTTPException =
  status_code :: nat
  detail :: string

text \<open>The error kinds of the specification are the two status codes the handlers raise.\<close>

definition NotFound :: "HTTPException \<Rightarrow> bool" where
  "NotFound e = (status_code e = 404)"

definition PersistenceError :: "HTTPException \<Rightarrow> bool" where
  "PersistenceError e = (status_code e = 500)"

section \<open>Validation of request bodies\<close>

text \<open>\<^verbatim>\<open>x: Optional[T] = d\<close>\<close>

fun optional_field :: "'a option \<Rightarrow> 'a member \<Rightarrow> 'a option" where
  "optional_field d Absent = d"
| "optional_field d Null = None"
| "optional_field d (Given v) = Some v"

text \<open>\<^verbatim>\<open>x: T = d\<close>; \<open>None\<close> is the validation error (422).\<close>

fun default_field :: "'a \<Rightarrow> 'a member \<Rightarrow> 'a option" where
  "default_field d Absent = Some d"
| "default_field d Null = None"
| "default_field d (Given v) = Some v"

text \<open>\<^verbatim>\<open>x: T\<close>; \<open>None\<close> is the validation error (422).\<close>

fun required_field :: "'a member \<Rightarrow> 'a option" where
  "required_field Absent = None"
| "required_field Null = None"
| "required_field (Given v) = Some v"

definition parse_TaskCreate :: "TaskCreate_body \<Rightarrow> TaskCreate option" where
  "parse_TaskCreate b =
     (case required_field (TaskCreate_body.title b) of
        None \<Rightarrow> None
      | Some t \<Rightarrow>
     (case default_field MEDIUM (TaskCreate_body.priority b) of
        None \<Rightarrow> None
      | Some p \<Rightarrow>
     (case default_field TODO (TaskCreate_body.status b) of
        None \<Rightarrow> None
      | Some s \<Rightarrow>
     (case default_field [] (TaskCreate_body.subtasks b) of
        None \<Rightarrow> None
      | Some subs \<Rightarrow>
        Some \<lparr> TaskCreate.title = t,
               TaskCreate.description = optional_field (Some '''') (TaskCreate_body.description b),
               TaskCreate.due_date = optional_field None (TaskCreate_body.due_date b),
               TaskCreate.priority = p,
               TaskCreate.category = optional_field (Some '''') (TaskCreate_body.category b),
               TaskCreate.status = s,
               TaskCreate.subtasks = subs \<rparr>))))"

definition parse_TaskUpdate :: "TaskUpdate_body \<Rightarrow> TaskUpdate" where
  "parse_TaskUpdate b =
     \<lparr> TaskUpdate.title = optional_field None (TaskUpdate_body.title b),
       TaskUpdate.description = optional_field None (TaskUpdate_body.description b),
       TaskUpdate.due_date = optional_field None (TaskUpdate_body.due_date b),
       TaskUpdate.priority = optional_field None (TaskUpdate_body.priority b),
       TaskUpdate.category = optional_field None (TaskUpdate_body.category b),
       TaskUpdate.status = optional_field None (TaskUpdate_body.status b),
       TaskUpdate.subtasks = optional_field None (TaskUpdate_body.subtasks b) \<rparr>"

section \<open>The collection\<close>

text \<open>
  \<^verbatim>\<open>db.tasks\<close> is the list of its documents in insertion order. Every document the
  handlers write is a \<^verbatim>\<open>Task.dict()\<close>, and every \<^verbatim>\<open>$set\<close> they issue assigns a field of
  \<^verbatim>\<open>Task\<close> a value of its type, so a document is a \<open>Task\<close> and \<^verbatim>\<open>Task(**doc)\<close> is the
  document itself. A filter document is the list of its conditions, each a predicate on
  documents; a document matches when every condition holds.
\<close>

type_synonym filter_doc = "(Task \<Rightarrow> bool) list"

definition matches :: "filter_doc \<Rightarrow> Task \<Rightarrow> bool" where
  "matches filter_dict d = list_all (\<lambda>cond. cond d) filter_dict"

text \<open>\<^verbatim>\<open>{"$lt": v}\<close> on a field that may be null: null is never less than a date.\<close>

fun lt_op :: "datetime option \<Rightarrow> datetime \<Rightarrow> bool" where
  "lt_op None v = False"
| "lt_op (Some x) v = (x < v)"

text \<open>\<^verbatim>\<open>{"subtasks.id": v}\<close>: some element of the array has that id.\<close>

definition subtasks_id_is :: "string \<Rightarrow> Task \<Rightarrow> bool" where
  "subtasks_id_is v d = list_ex (\<lambda>s. Subtask.id' s = v) (subtasks d)"

record InsertOneResult =
  inserted_id :: "nat option"

record UpdateResult =
  matched_count :: nat
  modified_count :: nat

record DeleteResult =
  deleted_count :: nat

text \<open>
  \<^verbatim>\<open>insert_one\<close>: the store's reply is an input of the model. \<open>Some oid\<close> is an
  acknowledged write, which appends the document; \<open>None\<close> is a reply without an
  \<^verbatim>\<open>inserted_id\<close>.
\<close>

definition insert_one :: "nat option \<Rightarrow> Task \<Rightarrow> Task list \<Rightarrow> InsertOneResult \<times> Task list" where
  "insert_one reply doc db =
     (case reply of
        Some oid \<Rightarrow> (\<lparr> inserted_id = Some oid \<rparr>, db @ [doc])
      | None \<Rightarrow> (\<lparr> inserted_id = None \<rparr>, db))"

text \<open>\<^verbatim>\<open>find_one\<close>: the first document that matches, or \<^verbatim>\<open>None\<close>.\<close>

definition find_one :: "filter_doc \<Rightarrow> Task list \<Rightarrow> Task option" where
  "find_one filter_dict db = List.find (matches filter_dict) db"

text \<open>
  \<^verbatim>\<open>update_one\<close>: the update is applied to the first document that matches;
  \<^verbatim>\<open>modified_count\<close> is 1 only when that document changed.
\<close>

fun update_one :: "filter_doc \<Rightarrow> (Task \<Rightarrow> Task) \<Rightarrow> Task list \<Rightarrow> UpdateResult \<times> Task list" where
  "update_one filter_dict upd [] = (\<lparr> matched_count = 0, modified_count = 0 \<rparr>, [])"
| "update_one filter_dict upd (d # ds) =
     (if matches filter_dict d then
        (if upd d = d then (\<lparr> matched_count = 1, modified_count = 0 \<rparr>, d # ds)
         else (\<lparr> matched_count = 1, modified_count = 1 \<rparr>, upd d # ds))
      else (case update_one filter_dict upd ds of (result, ds') \<Rightarrow> (result, d # ds')))"

text \<open>\<^verbatim>\<open>delete_one\<close>: the first document that matches is removed.\<close>

fun delete_one :: "filter_doc \<Rightarrow> Task list \<Rightarrow> DeleteResult \<times> Task list" where
  "delete_one filter_dict [] = (\<lparr> deleted_count = 0 \<rparr>, [])"
| "delete_one filter_dict (d # ds) =
     (if matches filter_dict d then (\<lparr> deleted_count = 1 \<rparr>, ds)
      else (case delete_one filter_dict ds of (result, ds') \<Rightarrow> (result, d # ds')))"

definition count_documents :: "filter_doc \<Rightarrow> Task list \<Rightarrow> nat" where
  "count_documents filter_dict db = length (filter (matches filter_dict) db)"

text \<open>\<^verbatim>\<open>find(filter).sort(key, -1).to_list(n)\<close>, one call each.\<close>

definition find_docs :: "filter_doc \<Rightarrow> Task list \<Rightarrow> Task list" where
  "find_docs filter_dict db = filter (matches filter_dict) db"

definition sort_desc :: "(Task \<Rightarrow> datetime) \<Rightarrow> Task list \<Rightarrow> Task list" where
  "sort_desc k ds = sort_key (\<lambda>d. - k d) ds"

definition to_list :: "nat \<Rightarrow> Task list \<Rightarrow> Task list" where
  "to_list n ds = take n ds"

section \<open>The task routes\<close>

text \<open>
  Each handler takes what it reads from its environment (\<^verbatim>\<open>uuid.uuid4()\<close>,
  \<^verbatim>\<open>datetime.utcnow()\<close>, the store's reply) as arguments, and the collection last; it
  returns the response, \<open>Inl\<close> the \<^verbatim>\<open>HTTPException\<close> raised, and the collection after
  the call.
\<close>

text \<open>
  \<^verbatim>\<open>create_task\<close>. \<^verbatim>\<open>Task(**task_dict)\<close> runs the three default factories in field order:
  \<^verbatim>\<open>id\<close>, then \<^verbatim>\<open>created_at\<close>, then \<^verbatim>\<open>updated_at\<close>, so the clock is read twice.
\<close>

definition create_task ::
  "string \<Rightarrow> datetime \<Rightarrow> datetime \<Rightarrow> nat option \<Rightarrow> TaskCreate \<Rightarrow> Task list
     \<Rightarrow> (HTTPException + Task) \<times> Task list" where
  "create_task uuid4 utcnow1 utcnow2 reply task_input db =
     (let task_obj =
            \<lparr> id' = uuid4,
              title = TaskCreate.title task_input,
              description = TaskCreate.description task_input,
              due_date = TaskCreate.due_date task_input,
              priority = TaskCreate.priority task_input,
              category = TaskCreate.category task_input,
              status = TaskCreate.status task_input,
              subtasks = TaskCreate.subtasks task_input,
              created_at = utcnow1,
              updated_at = utcnow2 \<rparr>;
          (result, db') = insert_one reply task_obj db
      in if inserted_id result \<noteq> None then (Inr task_obj, db')
         else (Inl \<lparr> status_code = 500, detail = ''Failed to create task'' \<rparr>, db'))"

text \<open>The route with its body: a body that fails validation is answered 422 before the handler runs.\<close>

definition post_tasks ::
  "string \<Rightarrow> datetime \<Rightarrow> datetime \<Rightarrow> nat option \<Rightarrow> TaskCreate_body \<Rightarrow> Task list
     \<Rightarrow> (HTTPException + Task) \<times> Task list" where
  "post_tasks uuid4 utcnow1 utcnow2 reply body db =
     (case parse_TaskCreate body of
        None \<Rightarrow> (Inl \<lparr> status_code = 422, detail = ''Unprocessable Entity'' \<rparr>, db)
      | Some task_input \<Rightarrow> create_task uuid4 utcnow1 utcnow2 reply task_input db)"

text \<open>
  \<^verbatim>\<open>get_tasks\<close>. \<^verbatim>\<open>if status:\<close> is Python truthiness: \<^verbatim>\<open>None\<close> and the empty string are
  false; a member of a \<^verbatim>\<open>str\<close> enum is true when its value is not empty.
\<close>

fun truthy :: "string option \<Rightarrow> bool" where
  "truthy None = False"
| "truthy (Some s) = (s \<noteq> [])"

definition get_tasks ::
  "TaskStatus option \<Rightarrow> TaskPriority option \<Rightarrow> string option \<Rightarrow> Task list \<Rightarrow> Task list" where
  "get_tasks status' priority' category' db =
     (let filter_dict = [];
          filter_dict =
            (if truthy (map_option TaskStatus_value status')
             then filter_dict @ [\<lambda>d. Some (status d) = status'] else filter_dict);
          filter_dict =
            (if truthy (map_option TaskPriority_value priority')
             then filter_dict @ [\<lambda>d. Some (priority d) = priority'] else filter_dict);
          filter_dict =
            (if truthy category'
             then filter_dict @ [\<lambda>d. category d = category'] else filter_dict);
          tasks = to_list 1000 (sort_desc created_at (find_docs filter_dict db))
      in tasks)"

definition get_task :: "string \<Rightarrow> Task list \<Rightarrow> HTTPException + Task" where
  "get_task task_id db =
     (case find_one [\<lambda>d. id' d = task_id] db of
        None \<Rightarrow> Inl \<lparr> status_code = 404, detail = ''Task not found'' \<rparr>
      | Some task \<Rightarrow> Inr task)"

text \<open>
  \<^verbatim>\<open>update_task\<close>. An entry of \<^verbatim>\<open>update_dict\<close> is a key of the document with a value of
  the key's type; \<^verbatim>\<open>task_update.dict().items()\<close> has one entry for each field of
  \<^verbatim>\<open>TaskUpdate\<close>, in field order, \<open>None\<close> where the field is \<^verbatim>\<open>None\<close>.
\<close>

datatype entry =
    Title string
  | Description string
  | Due_date datetime
  | Priority TaskPriority
  | Category string
  | Status TaskStatus
  | Subtasks "Subtask list"
  | Updated_at datetime

definition dict_items :: "TaskUpdate \<Rightarrow> entry option list" where
  "dict_items task_update =
     [ map_option Title (TaskUpdate.title task_update),
       map_option Description (TaskUpdate.description task_update),
       map_option Due_date (TaskUpdate.due_date task_update),
       map_option Priority (TaskUpdate.priority task_update),
       map_option Category (TaskUpdate.category task_update),
       map_option Status (TaskUpdate.status task_update),
       map_option Subtasks (TaskUpdate.subtasks task_update) ]"

text \<open>\<^verbatim>\<open>{"$set": update_dict}\<close>: every entry is assigned to its field.\<close>

fun assign :: "entry \<Rightarrow> Task \<Rightarrow> Task" where
  "assign (Title v) d = d\<lparr> title := v \<rparr>"
| "assign (Description v) d = d\<lparr> description := Some v \<rparr>"
| "assign (Due_date v) d = d\<lparr> due_date := Some v \<rparr>"
| "assign (Priority v) d = d\<lparr> priority := v \<rparr>"
| "assign (Category v) d = d\<lparr> category := Some v \<rparr>"
| "assign (Status v) d = d\<lparr> status := v \<rparr>"
| "assign (Subtasks v) d = d\<lparr> subtasks := v \<rparr>"
| "assign (Updated_at v) d = d\<lparr> updated_at := v \<rparr>"

definition set_op :: "entry list \<Rightarrow> Task \<Rightarrow> Task" where
  "set_op update_dict d = fold assign update_dict d"

text \<open>
  Lines 149 and 150: the comprehension keeps the entries whose value is not \<^verbatim>\<open>None\<close>, and
  the assignment adds the key \<^verbatim>\<open>updated_at\<close>, which \<^verbatim>\<open>TaskUpdate\<close> does not have.
\<close>

definition update_dict :: "datetime \<Rightarrow> TaskUpdate \<Rightarrow> entry list" where
  "update_dict utcnow task_update =
     (let update_dict = List.map_filter (\<lambda>v. v) (dict_items task_update);
          update_dict = update_dict @ [Updated_at utcnow]
      in update_dict)"

text \<open>
  In \<open>update_task\<close> and \<open>update_subtask\<close> the second \<^verbatim>\<open>find_one\<close> follows a write that
  matched, so it finds a document; were it to return \<^verbatim>\<open>None\<close>, \<^verbatim>\<open>Task(**None)\<close> would
  raise and the framework would answer 500.
\<close>

definition update_task ::
  "datetime \<Rightarrow> string \<Rightarrow> TaskUpdate \<Rightarrow> Task list \<Rightarrow> (HTTPException + Task) \<times> Task list" where
  "update_task utcnow task_id task_update db =
     (case find_one [\<lambda>d. id' d = task_id] db of
        None \<Rightarrow> (Inl \<lparr> status_code = 404, detail = ''Task not found'' \<rparr>, db)
      | Some task \<Rightarrow>
          (let (result, db') =
                 update_one [\<lambda>d. id' d = task_id] (set_op (update_dict utcnow task_update)) db
           in if modified_count result = 1 then
                (case find_one [\<lambda>d. id' d = task_id] db' of
                   Some updated_task \<Rightarrow> (Inr updated_task, db')
                 | None \<Rightarrow> (Inl \<lparr> status_code = 500, detail = ''Internal Server Error'' \<rparr>, db'))
              else (Inl \<lparr> status_code = 500, detail = ''Failed to update task'' \<rparr>, db')))"

text \<open>The route with its body; every body validates, since every field is optional.\<close>

definition put_task ::
  "datetime \<Rightarrow> string \<Rightarrow> TaskUpdate_body \<Rightarrow> Task list \<Rightarrow> (HTTPException + Task) \<times> Task list" where
  "put_task utcnow task_id body db = update_task utcnow task_id (parse_TaskUpdate body) db"

definition delete_task :: "string \<Rightarrow> Task list \<Rightarrow> (HTTPException + string) \<times> Task list" where
  "delete_task task_id db =
     (let (result, db') = delete_one [\<lambda>d. id' d = task_id] db
      in if deleted_count result = 1 then (Inr ''Task deleted successfully'', db')
         else (Inl \<lparr> status_code = 404, detail = ''Task not found'' \<rparr>, db'))"

record DashboardStats =
  total_tasks :: nat
  todo_count :: nat
  in_progress_count :: nat
  done_count :: nat
  high_priority_count :: nat
  overdue_count :: nat

definition get_dashboard_stats :: "datetime \<Rightarrow> Task list \<Rightarrow> DashboardStats" where
  "get_dashboard_stats utcnow db =
     (let total_tasks = count_documents [] db;
          todo_count = count_documents [\<lambda>d. status d = TODO] db;
          in_progress_count = count_documents [\<lambda>d. status d = IN_PROGRESS] db;
          done_count = count_documents [\<lambda>d. status d = DONE] db;
          high_priority = count_documents [\<lambda>d. priority d = HIGH] db;
          overdue_count =
            count_documents [\<lambda>d. lt_op (due_date d) utcnow, \<lambda>d. status d \<noteq> DONE] db
      in \<lparr> total_tasks = total_tasks,
           todo_count = todo_count,
           in_progress_count = in_progress_count,
           done_count = done_count,
           high_priority_count = high_priority,
           overdue_count = overdue_count \<rparr>)"

text \<open>
  \<^verbatim>\<open>update_subtask\<close>. \<^verbatim>\<open>subtasks.$.completed\<close> assigns the first element of the array
  that the filter's condition on \<^verbatim>\<open>subtasks.id\<close> matched.
\<close>

fun set_positional_completed :: "string \<Rightarrow> bool \<Rightarrow> Subtask list \<Rightarrow> Subtask list" where
  "set_positional_completed subtask_id v [] = []"
| "set_positional_completed subtask_id v (s # ss) =
     (if Subtask.id' s = subtask_id then s\<lparr> completed := v \<rparr> # ss
      else s # set_positional_completed subtask_id v ss)"

definition update_subtask ::
  "datetime \<Rightarrow> string \<Rightarrow> string \<Rightarrow> bool \<Rightarrow> Task list \<Rightarrow> (HTTPException + Task) \<times> Task list" where
  "update_subtask utcnow task_id subtask_id completed' db =
     (case find_one [\<lambda>d. id' d = task_id] db of
        None \<Rightarrow> (Inl \<lparr> status_code = 404, detail = ''Task not found'' \<rparr>, db)
      | Some task \<Rightarrow>
          (let (result, db') =
                 update_one [\<lambda>d. id' d = task_id, subtasks_id_is subtask_id]
                   (\<lambda>d. d\<lparr> subtasks := set_positional_completed subtask_id completed' (subtasks d),
                           updated_at := utcnow \<rparr>) db
           in if modified_count result = 1 then
                (case find_one [\<lambda>d. id' d = task_id] db' of
                   Some updated_task \<Rightarrow> (Inr updated_task, db')
                 | None \<Rightarrow> (Inl \<lparr> status_code = 500, detail = ''Internal Server Error'' \<rparr>, db'))
              else (Inl \<lparr> status_code = 404, detail = ''Subtask not found'' \<rparr>, db')))"

section \<open>Sequences of requests\<close>

text \<open>
  A request carries, besides its parameters, what its handler reads from the
  environment. \<open>clock_reads\<close> lists the readings of \<^verbatim>\<open>datetime.utcnow()\<close> in the order
  the handler takes them.
\<close>

datatype request =
    Create_task string datetime datetime "nat option" TaskCreate_body
  | Get_tasks "TaskStatus option" "TaskPriority option" "string option"
  | Get_task string
  | Update_task datetime string TaskUpdate_body
  | Delete_task string
  | Get_dashboard_stats datetime
  | Update_subtask datetime string string bool

fun clock_reads :: "request \<Rightarrow> datetime list" where
  "clock_reads (Create_task uuid4 utcnow1 utcnow2 reply body) = [utcnow1, utcnow2]"
| "clock_reads (Get_tasks status' priority' category') = []"
| "clock_reads (Get_task task_id) = []"
| "clock_reads (Update_task utcnow task_id body) = [utcnow]"
| "clock_reads (Delete_task task_id) = []"
| "clock_reads (Get_dashboard_stats utcnow) = [utcnow]"
| "clock_reads (Update_subtask utcnow task_id subtask_id completed') = [utcnow]"

text \<open>The Tasks a response shows: those of a successful response, none of a failed one.\<close>

fun shown :: "HTTPException + Task \<Rightarrow> Task list" where
  "shown (Inl e) = []"
| "shown (Inr t) = [t]"

text \<open>\<open>serve\<close> answers one request: the Tasks its response shows, and the collection after it.\<close>

fun serve :: "request \<Rightarrow> Task list \<Rightarrow> Task list \<times> Task list" where
  "serve (Create_task uuid4 utcnow1 utcnow2 reply body) db =
     (case post_tasks uuid4 utcnow1 utcnow2 reply body db of
        (response, db') \<Rightarrow> (shown response, db'))"
| "serve (Get_tasks status' priority' category') db =
     (get_tasks status' priority' category' db, db)"
| "serve (Get_task task_id) db = (shown (get_task task_id db), db)"
| "serve (Update_task utcnow task_id body) db =
     (case put_task utcnow task_id body db of (response, db') \<Rightarrow> (shown response, db'))"
| "serve (Delete_task task_id) db = ([], snd (delete_task task_id db))"
| "serve (Get_dashboard_stats utcnow) db = ([], db)"
| "serve (Update_subtask utcnow task_id subtask_id completed') db =
     (case update_subtask utcnow task_id subtask_id completed' db of
        (response, db') \<Rightarrow> (shown response, db'))"

text \<open>
  \<open>run\<close> serves requests one after the other: every Task shown on the way, and the
  collection at the end.
\<close>

fun run :: "request list \<Rightarrow> Task list \<Rightarrow> Task list \<times> Task list" where
  "run [] db = ([], db)"
| "run (r # rs) db =
     (case serve r db of (seen, db') \<Rightarrow>
        (case run rs db' of (seen', db'') \<Rightarrow> (seen @ seen', db'')))"

section \<open>Example data\<close>

definition subtask_a :: Subtask where
  "subtask_a = \<lparr> Subtask.id' = ''s1'', text' = ''a'', completed = False \<rparr>"

definition subtask_b :: Subtask where
  "subtask_b = \<lparr> Subtask.id' = ''s2'', text' = ''b'', completed = False \<rparr>"

definition report_task :: Task where
  "report_task =
     \<lparr> id' = ''t1'', title = ''Write report'', description = Some [], due_date = Some 5,
       priority = MEDIUM, category = Some ''Work'', status = TODO,
       subtasks = [subtask_a, subtask_b], created_at = 10, updated_at = 10 \<rparr>"

text \<open>The body \<^verbatim>\<open>{}\<close>, and the body \<^verbatim>\<open>{"status": "Done"}\<close>.\<close>

definition empty_body :: TaskUpdate_body where
  "empty_body =
     \<lparr> TaskUpdate_body.title = Absent, TaskUpdate_body.description = Absent,
       TaskUpdate_body.due_date = Absent, TaskUpdate_body.priority = Absent,
       TaskUpdate_body.category = Absent, TaskUpdate_body.status = Absent,
       TaskUpdate_body.subtasks = Absent \<rparr>"

definition done_body :: TaskUpdate_body where
  "done_body = empty_body\<lparr> TaskUpdate_body.status := Given DONE \<rparr>"

text \<open>A body with every \<^verbatim>\<open>null\<close> member left out, and the body \<^verbatim>\<open>{"due_date": null}\<close>.\<close>

fun null_as_absent :: "'a member \<Rightarrow> 'a member" where
  "null_as_absent Absent = Absent"
| "null_as_absent Null = Absent"
| "null_as_absent (Given v) = Given v"

definition without_nulls :: "TaskUpdate_body \<Rightarrow> TaskUpdate_body" where
  "without_nulls b =
     \<lparr> TaskUpdate_body.title = null_as_absent (TaskUpdate_body.title b),
       TaskUpdate_body.description = null_as_absent (TaskUpdate_body.description b),
       TaskUpdate_body.due_date = null_as_absent (TaskUpdate_body.due_date b),
       TaskUpdate_body.priority = null_as_absent (TaskUpdate_body.priority b),
       TaskUpdate_body.category = null_as_absent (TaskUpdate_body.category b),
       TaskUpdate_body.status = null_as_absent (TaskUpdate_body.status b),
       TaskUpdate_body.subtasks = null_as_absent (TaskUpdate_body.subtasks b) \<rparr>"

definition null_due_date_body :: TaskUpdate_body where
  "null_due_date_body = empty_body\<lparr> TaskUpdate_body.due_date := Null \<rparr>"

text \<open>An optional field that holds a value before holds one after.\<close>

definition keeps_values :: "Task \<Rightarrow> Task \<Rightarrow> bool" where
  "keeps_values d d' =
     ((description d = None \<or> description d' \<noteq> None) \<and>
      (due_date d = None \<or> due_date d' \<noteq> None) \<and>
      (category d = None \<or> category d' \<noteq> None))"

text \<open>
  The filters of \<open>get_tasks\<close> in the words of the specification. \<open>exact_match\<close>: every
  filter that is supplied equals the stored field. \<open>selected\<close>: the same, except that a
  category filter that is the empty string is not applied.
\<close>

definition exact_match ::
  "TaskStatus option \<Rightarrow> TaskPriority option \<Rightarrow> string option \<Rightarrow> Task \<Rightarrow> bool" where
  "exact_match status' priority' category' d =
     ((status' = None \<or> status' = Some (status d)) \<and>
      (priority' = None \<or> priority' = Some (priority d)) \<and>
      (category' = None \<or> category' = category d))"

definition selected ::
  "TaskStatus option \<Rightarrow> TaskPriority option \<Rightarrow> string option \<Rightarrow> Task \<Rightarrow> bool" where
  "selected status' priority' category' d =
     ((status' = None \<or> status' = Some (status d)) \<and>
      (priority' = None \<or> priority' = Some (priority d)) \<and>
      (category' = None \<or> category' = Some [] \<or> category' = category d))"

text \<open>A Task without a category, created after \<open>report_task\<close>.\<close>

definition plain_task :: Task where
  "plain_task =
     \<lparr> id' = ''t2'', title = ''Call back'', description = Some [], due_date = None,
       priority = HIGH, category = Some [], status = DONE,
       subtasks = [], created_at = 12, updated_at = 15 \<rparr>"

text \<open>The body \<^verbatim>\<open>{"title": "Write report"}\<close>.\<close>

definition title_only_body :: TaskCreate_body where
  "title_only_body =
     \<lparr> TaskCreate_body.title = Given ''Write report'', TaskCreate_body.description = Absent,
       TaskCreate_body.due_date = Absent, TaskCreate_body.priority = Absent,
       TaskCreate_body.category = Absent, TaskCreate_body.status = Absent,
       TaskCreate_body.subtasks = Absent \<rparr>"

text \<open>\<open>report_task\<close> after its subtask \<open>a\<close> was completed at time 20.\<close>

definition report_task_a_done :: Task where
  "report_task_a_done =
     report_task\<lparr> subtasks := [subtask_a\<lparr> completed := True \<rparr>, subtask_b], updated_at := 20 \<rparr>"

text \<open>
  Overdue in the words of the specification: the due date is before \<open>now\<close> and the status
  is not Done; a Task without a due date is not overdue.
\<close>

definition overdue :: "datetime \<Rightarrow> Task \<Rightarrow> bool" where
  "overdue now d =
     ((case due_date d of None \<Rightarrow> False | Some due \<Rightarrow> due < now) \<and> status d \<noteq> DONE)"

text \<open>The body from which \<open>report_task\<close> is created, and \<open>report_task\<close> once it is done.\<close>

definition report_body :: TaskCreate_body where
  "report_body =
     \<lparr> TaskCreate_body.title = Given ''Write report'', TaskCreate_body.description = Absent,
       TaskCreate_body.due_date = Given 5, TaskCreate_body.priority = Absent,
       TaskCreate_body.category = Given ''Work'', TaskCreate_body.status = Given TODO,
       TaskCreate_body.subtasks = Given [subtask_a, subtask_b] \<rparr>"

definition report_task_done :: Task where
  "report_task_done = report_task\<lparr> status := DONE, updated_at := 30 \<rparr>"

text \<open>
  The invariant of the collection at clock reading \<open>c\<close>: no Task was updated before it
  was created, and none was created after \<open>c\<close>.
\<close>

definition timestamps_ok :: "datetime \<Rightarrow> Task list \<Rightarrow> bool" where
  "timestamps_ok c ts = list_all (\<lambda>t. created_at t \<le> updated_at t \<and> created_at t \<le> c) ts"

text \<open>Create \<open>report_task\<close>, mark it done, read it.\<close>

definition report_requests :: "request list" where
  "report_requests =
     [Create_task ''t1'' 10 10 (Some 7) report_body,
      Update_task 30 ''t1'' done_body,
      Get_task ''t1'']"

text \<open>
  The uuids of a sequence of requests are fresh when no \<open>Create_task\<close> carries an id that
  is in use or that an earlier \<open>Create_task\<close> of the sequence carried.
\<close>

fun fresh_ids :: "request list \<Rightarrow> string list \<Rightarrow> bool" where
  "fresh_ids [] used = True"
| "fresh_ids (Create_task uuid4 utcnow1 utcnow2 reply body # rs) used =
     (uuid4 \<notin> set used \<and> fresh_ids rs (uuid4 # used))"
| "fresh_ids (r # rs) used = fresh_ids rs used"

text \<open>
  The Task after an update in the words of the specification: every field that the
  partial supplies has the supplied value, \<open>updated_at\<close> is the clock reading, and every
  other field is the stored one.
\<close>

definition updated_with :: "datetime \<Rightarrow> TaskUpdate \<Rightarrow> Task \<Rightarrow> Task" where
  "updated_with now u d =
     d\<lparr> title := (case TaskUpdate.title u of None \<Rightarrow> title d | Some v \<Rightarrow> v),
        description := (case TaskUpdate.description u of None \<Rightarrow> description d | Some v \<Rightarrow> Some v),
        due_date := (case TaskUpdate.due_date u of None \<Rightarrow> due_date d | Some v \<Rightarrow> Some v),
        priority := (case TaskUpdate.priority u of None \<Rightarrow> priority d | Some v \<Rightarrow> v),
        category := (case TaskUpdate.category u of None \<Rightarrow> category d | Some v \<Rightarrow> Some v),
        status := (case TaskUpdate.status u of None \<Rightarrow> status d | Some v \<Rightarrow> v),
        subtasks := (case TaskUpdate.subtasks u of None \<Rightarrow> subtasks d | Some v \<Rightarrow> v),
        updated_at := now \<rparr>"

text \<open>Create \<open>report_task\<close> at clock reading 10, then mark it done at clock reading 5.\<close>

definition backward_requests :: "request list" where
  "backward_requests =
     [Create_task ''t1'' 10 10 (Some 7) report_body,
      Update_task 5 ''t1'' done_body]"

section \<open>Facts about the collection\<close>

lemma matches_id [simp]: "matches [\<lambda>d. id' d = i] d = (id' d = i)"
  by (simp add: matches_def)

lemma find_one_None: "(find_one f db = None) = (\<forall>d\<in>set db. \<not> matches f d)"
  by (auto simp: find_one_def find_None_iff)

lemma find_one_Some_split:
  "find_one f db = Some d \<Longrightarrow>
     \<exists>pre post. db = pre @ d # post \<and> matches f d \<and> (\<forall>x\<in>set pre. \<not> matches f x)"
  unfolding find_one_def
proof (induction db)
  case Nil
  then show ?case by simp
next
  case (Cons a db)
  show ?case
  proof (cases "matches f a")
    case True
    with Cons.prems have "a = d" by simp
    with True show ?thesis by (intro exI[of _ "[]"] exI[of _ db]) simp
  next
    case False
    with Cons.prems have "List.find (matches f) db = Some d" by simp
    from Cons.IH[OF this] obtain pre post where
      "db = pre @ d # post" "matches f d" "\<forall>x\<in>set pre. \<not> matches f x" by blast
    with False show ?thesis by (intro exI[of _ "a # pre"] exI[of _ post]) simp
  qed
qed

lemma find_one_split:
  "(\<forall>x\<in>set pre. \<not> matches f x) \<Longrightarrow> matches f d \<Longrightarrow> find_one f (pre @ d # post) = Some d"
  unfolding find_one_def by (induction pre) auto

lemma update_one_split:
  "(\<forall>x\<in>set pre. \<not> matches f x) \<Longrightarrow> matches f d \<Longrightarrow>
   update_one f upd (pre @ d # post) =
     (\<lparr> matched_count = 1, modified_count = (if upd d = d then 0 else 1) \<rparr>, pre @ upd d # post)"
  by (induction pre) auto

lemma update_one_no_match:
  "(\<forall>x\<in>set db. \<not> matches f x) \<Longrightarrow>
   update_one f upd db = (\<lparr> matched_count = 0, modified_count = 0 \<rparr>, db)"
  by (induction db) auto

lemma delete_one_split:
  "(\<forall>x\<in>set pre. \<not> matches f x) \<Longrightarrow> matches f d \<Longrightarrow>
   delete_one f (pre @ d # post) = (\<lparr> deleted_count = 1 \<rparr>, pre @ post)"
  by (induction pre) auto

lemma delete_one_no_match:
  "(\<forall>x\<in>set db. \<not> matches f x) \<Longrightarrow> delete_one f db = (\<lparr> deleted_count = 0 \<rparr>, db)"
  by (induction db) auto

lemma get_task_find: "get_task i db = Inr t \<longleftrightarrow> find_one [\<lambda>d. id' d = i] db = Some t"
  by (simp add: get_task_def split: option.splits)

text \<open>The first document with an id, and what a write aimed at that id reports.\<close>

lemma first_with_id:
  assumes "\<exists>d\<in>set db. id' d = i"
  obtains task pre post where "find_one [\<lambda>d. id' d = i] db = Some task"
    and "db = pre @ task # post" and "\<forall>x\<in>set pre. id' x \<noteq> i" and "id' task = i"
proof -
  from assms have "find_one [\<lambda>d. id' d = i] db \<noteq> None" by (simp add: find_one_None)
  then obtain task where f: "find_one [\<lambda>d. id' d = i] db = Some task" by blast
  from find_one_Some_split[OF this] obtain pre post where
    "db = pre @ task # post" "\<forall>x\<in>set pre. id' x \<noteq> i" "id' task = i" by auto
  with f that show thesis by blast
qed

lemma modified_count_id:
  assumes "db = pre @ task # post" and "\<forall>x\<in>set pre. id' x \<noteq> i" and "id' task = i"
  shows "modified_count (fst (update_one [\<lambda>d. id' d = i] upd db)) =
           (if upd task = task then 0 else 1)"
    and "snd (update_one [\<lambda>d. id' d = i] upd db) = pre @ upd task # post"
proof -
  let ?f = "[\<lambda>d. id' d = i]"
  from assms have pre: "\<forall>x\<in>set pre. \<not> matches ?f x" and m: "matches ?f task" by simp_all
  show "modified_count (fst (update_one ?f upd db)) = (if upd task = task then 0 else 1)"
    unfolding assms(1) update_one_split[OF pre m] by simp
  show "snd (update_one ?f upd db) = pre @ upd task # post"
    unfolding assms(1) update_one_split[OF pre m] by simp
qed

section \<open>Facts about update\<close>

lemma id_assign [simp]: "id' (assign e d) = id' d"
  by (cases e) simp_all

lemma created_at_assign [simp]: "created_at (assign e d) = created_at d"
  by (cases e) simp_all

lemma id_set_op [simp]: "id' (set_op es d) = id' d"
  unfolding set_op_def by (induction es arbitrary: d) simp_all

lemma created_at_set_op [simp]: "created_at (set_op es d) = created_at d"
  unfolding set_op_def by (induction es arbitrary: d) simp_all

text \<open>What \<^verbatim>\<open>$set\<close> with the handler's \<open>update_dict\<close> makes of a document, field by field.\<close>

lemma set_op_update_dict:
  "set_op (update_dict now u) d =
     d\<lparr> title := (case TaskUpdate.title u of None \<Rightarrow> title d | Some v \<Rightarrow> v),
        description := (case TaskUpdate.description u of None \<Rightarrow> description d | Some v \<Rightarrow> Some v),
        due_date := (case TaskUpdate.due_date u of None \<Rightarrow> due_date d | Some v \<Rightarrow> Some v),
        priority := (case TaskUpdate.priority u of None \<Rightarrow> priority d | Some v \<Rightarrow> v),
        category := (case TaskUpdate.category u of None \<Rightarrow> category d | Some v \<Rightarrow> Some v),
        status := (case TaskUpdate.status u of None \<Rightarrow> status d | Some v \<Rightarrow> v),
        subtasks := (case TaskUpdate.subtasks u of None \<Rightarrow> subtasks d | Some v \<Rightarrow> v),
        updated_at := now \<rparr>"
  by (simp add: set_op_def update_dict_def dict_items_def split: option.split)

lemma update_task_missing:
  assumes "\<forall>d\<in>set db. id' d \<noteq> i"
  shows "update_task now i u db = (Inl \<lparr> status_code = 404, detail = ''Task not found'' \<rparr>, db)"
proof -
  from assms have "find_one [\<lambda>d. id' d = i] db = None" by (simp add: find_one_None)
  then show ?thesis by (simp add: update_task_def)
qed

lemma update_task_found:
  assumes "db = pre @ task # post" and "\<forall>x\<in>set pre. id' x \<noteq> i" and "id' task = i"
  shows "update_task now i u db =
           (if set_op (update_dict now u) task = task
            then (Inl \<lparr> status_code = 500, detail = ''Failed to update task'' \<rparr>, db)
            else (Inr (set_op (update_dict now u) task),
                  pre @ set_op (update_dict now u) task # post))"
proof -
  let ?f = "[\<lambda>d. id' d = i]"
  from assms have pre: "\<forall>x\<in>set pre. \<not> matches ?f x" and m: "matches ?f task" by simp_all
  have f: "find_one ?f db = Some task"
    using find_one_split[OF pre m] assms(1) by simp
  have u: "update_one ?f (set_op (update_dict now u)) db =
     (\<lparr> matched_count = 1,
        modified_count = (if set_op (update_dict now u) task = task then 0 else 1) \<rparr>,
      pre @ set_op (update_dict now u) task # post)"
    using update_one_split[OF pre m] assms(1) by simp
  have m': "matches ?f (set_op (update_dict now u) task)" using assms(3) by simp
  have f': "find_one ?f (pre @ set_op (update_dict now u) task # post) =
              Some (set_op (update_dict now u) task)"
    by (rule find_one_split[OF pre m'])
  show ?thesis
    using f u f' assms(1) by (simp add: update_task_def)
qed

section \<open>The claims\<close>

lemma set_op_updated_with: "set_op (update_dict now u) d = updated_with now u d"
  unfolding set_op_update_dict updated_with_def ..

text \<open>
  C1. \<open>update_task\<close> has three outcomes. When no Task has the id it fails with NotFound
  and leaves the collection as it was. When a Task has the id and the targeted write
  (\<open>update_one\<close> with the handler's filter and \<open>update_dict\<close>) does not report exactly one
  modified record, it fails with PersistenceError and leaves the collection as it was.
  Otherwise it succeeds: it returns the Task that \<open>get_task\<close> returned before the call
  with every supplied field replaced by the supplied value, \<open>updated_at\<close> set to the clock
  reading and every other field kept (\<open>updated_with\<close>); that Task stands in the collection
  in the place of the old one, and \<open>get_task\<close> returns it after the call. The targeted
  write reports one modified record exactly when \<open>updated_with\<close> changes the Task.
\<close>

theorem update_task_outcomes:
  "((\<forall>d\<in>set db. id' d \<noteq> task_id) \<longrightarrow>
      (\<exists>e. update_task now task_id u db = (Inl e, db) \<and> NotFound e))
   \<and> ((\<exists>d\<in>set db. id' d = task_id) \<and>
       modified_count (fst (update_one [\<lambda>d. id' d = task_id] (set_op (update_dict now u)) db)) \<noteq> 1 \<longrightarrow>
      (\<exists>e. update_task now task_id u db = (Inl e, db) \<and> PersistenceError e))
   \<and> ((\<exists>d\<in>set db. id' d = task_id) \<and>
       modified_count (fst (update_one [\<lambda>d. id' d = task_id] (set_op (update_dict now u)) db)) = 1 \<longrightarrow>
      (\<exists>task pre post. get_task task_id db = Inr task \<and> db = pre @ task # post \<and>
         update_task now task_id u db =
           (Inr (updated_with now u task), pre @ updated_with now u task # post) \<and>
         get_task task_id (pre @ updated_with now u task # post) =
           Inr (updated_with now u task)))
   \<and> (\<forall>task. get_task task_id db = Inr task \<longrightarrow>
        modified_count (fst (update_one [\<lambda>d. id' d = task_id] (set_op (update_dict now u)) db)) =
          (if updated_with now u task = task then 0 else 1))"
proof (intro conjI impI allI)
  assume "\<forall>d\<in>set db. id' d \<noteq> task_id"
  then show "\<exists>e. update_task now task_id u db = (Inl e, db) \<and> NotFound e"
    by (simp add: update_task_missing NotFound_def)
next
  let ?f = "[\<lambda>d. id' d = task_id]" and ?upd = "set_op (update_dict now u)"
  assume a: "(\<exists>d\<in>set db. id' d = task_id) \<and> modified_count (fst (update_one ?f ?upd db)) \<noteq> 1"
  then have "\<exists>d\<in>set db. id' d = task_id" by (rule conjunct1)
  then obtain task pre post where
    s: "db = pre @ task # post" "\<forall>x\<in>set pre. id' x \<noteq> task_id" "id' task = task_id"
    by (rule first_with_id)
  have same: "?upd task = task"
  proof (rule ccontr)
    assume "?upd task \<noteq> task"
    with modified_count_id(1)[OF s, of ?upd]
    have "modified_count (fst (update_one ?f ?upd db)) = 1" by (simp only: if_False)
    moreover from a have "modified_count (fst (update_one ?f ?upd db)) \<noteq> 1" by (rule conjunct2)
    ultimately show False by (rule notE[rotated])
  qed
  show "\<exists>e. update_task now task_id u db = (Inl e, db) \<and> PersistenceError e"
    unfolding update_task_found[OF s, of now u] using same
    by (simp add: PersistenceError_def)
next
  let ?f = "[\<lambda>d. id' d = task_id]" and ?upd = "set_op (update_dict now u)"
  assume a: "(\<exists>d\<in>set db. id' d = task_id) \<and> modified_count (fst (update_one ?f ?upd db)) = 1"
  then have "\<exists>d\<in>set db. id' d = task_id" by (rule conjunct1)
  then obtain task pre post where f: "find_one ?f db = Some task" and
    s: "db = pre @ task # post" "\<forall>x\<in>set pre. id' x \<noteq> task_id" "id' task = task_id"
    by (rule first_with_id)
  have ne: "?upd task \<noteq> task"
  proof
    assume "?upd task = task"
    with modified_count_id(1)[OF s, of ?upd]
    have "modified_count (fst (update_one ?f ?upd db)) = 0" by (simp only: if_True simp_thms)
    moreover from a have "modified_count (fst (update_one ?f ?upd db)) = 1" by (rule conjunct2)
    ultimately show False by (simp only: zero_neq_one)
  qed
  have pre: "\<forall>x\<in>set pre. \<not> matches ?f x" and m': "matches ?f (?upd task)"
    using s by simp_all
  have g: "get_task task_id db = Inr task" using f by (simp add: get_task_find)
  have r: "update_task now task_id u db = (Inr (?upd task), pre @ ?upd task # post)"
    unfolding update_task_found[OF s, of now u] using ne by simp
  have g': "get_task task_id (pre @ ?upd task # post) = Inr (?upd task)"
    unfolding get_task_find by (rule find_one_split[OF pre m'])
  from g s(1) r g' show "\<exists>task pre post. get_task task_id db = Inr task \<and> db = pre @ task # post \<and>
         update_task now task_id u db =
           (Inr (updated_with now u task), pre @ updated_with now u task # post) \<and>
         get_task task_id (pre @ updated_with now u task # post) =
           Inr (updated_with now u task)"
    unfolding set_op_updated_with by blast
next
  fix task
  assume "get_task task_id db = Inr task"
  then have "find_one [\<lambda>d. id' d = task_id] db = Some task" by (simp add: get_task_find)
  from find_one_Some_split[OF this] obtain pre post where
    s: "db = pre @ task # post" "\<forall>x\<in>set pre. id' x \<noteq> task_id" "id' task = task_id" by auto
  from modified_count_id(1)[OF s, of "set_op (update_dict now u)"]
  show "modified_count (fst (update_one [\<lambda>d. id' d = task_id] (set_op (update_dict now u)) db)) =
          (if updated_with now u task = task then 0 else 1)"
    unfolding set_op_updated_with .
qed

theorem update_task_outcomes_witness:
  "(\<exists>e. update_task 20 ''t1'' (parse_TaskUpdate done_body) [] = (Inl e, []) \<and> NotFound e)
   \<and> (\<exists>e. update_task 10 ''t1'' (parse_TaskUpdate empty_body) [report_task] = (Inl e, [report_task])
           \<and> PersistenceError e)
   \<and> update_task 20 ''t1'' (parse_TaskUpdate done_body) [report_task] =
        (Inr (report_task\<lparr> status := DONE, updated_at := 20 \<rparr>),
         [report_task\<lparr> status := DONE, updated_at := 20 \<rparr>])
   \<and> get_task ''t1'' [report_task\<lparr> status := DONE, updated_at := 20 \<rparr>] =
        Inr (report_task\<lparr> status := DONE, updated_at := 20 \<rparr>)"
proof -
  have e: "updated_with 10 (parse_TaskUpdate empty_body) report_task = report_task"
    by (simp add: updated_with_def parse_TaskUpdate_def empty_body_def report_task_def)
  have d: "updated_with 20 (parse_TaskUpdate done_body) report_task =
      report_task\<lparr> status := DONE, updated_at := 20 \<rparr>"
    by (simp add: updated_with_def parse_TaskUpdate_def empty_body_def done_body_def)
  have ne: "report_task\<lparr> status := DONE, updated_at := 20 \<rparr> \<noteq> report_task"
    by (simp add: report_task_def)
  have g: "get_task ''t1'' [report_task] = Inr report_task"
    by (simp add: get_task_def find_one_def report_task_def)
  have ex: "\<exists>d\<in>set [report_task]. id' d = ''t1''" by (simp add: report_task_def)
  note i1 = update_task_outcomes[where db="[]" and task_id="''t1''" and now=20
      and u="parse_TaskUpdate done_body"]
  note i2 = update_task_outcomes[where db="[report_task]" and task_id="''t1''" and now=10
      and u="parse_TaskUpdate empty_body"]
  note i3 = update_task_outcomes[where db="[report_task]" and task_id="''t1''" and now=20
      and u="parse_TaskUpdate done_body"]
  have h1: "\<forall>d\<in>set ([]::Task list). id' d \<noteq> ''t1''" by simp
  from i2 g have "modified_count (fst (update_one [\<lambda>d. id' d = ''t1'']
        (set_op (update_dict 10 (parse_TaskUpdate empty_body))) [report_task])) =
      (if updated_with 10 (parse_TaskUpdate empty_body) report_task = report_task then 0 else 1)"
    by blast
  then have h2: "modified_count (fst (update_one [\<lambda>d. id' d = ''t1'']
        (set_op (update_dict 10 (parse_TaskUpdate empty_body))) [report_task])) \<noteq> 1"
    unfolding e by simp
  from i3 g have "modified_count (fst (update_one [\<lambda>d. id' d = ''t1'']
        (set_op (update_dict 20 (parse_TaskUpdate done_body))) [report_task])) =
      (if updated_with 20 (parse_TaskUpdate done_body) report_task = report_task then 0 else 1)"
    by blast
  then have h3: "modified_count (fst (update_one [\<lambda>d. id' d = ''t1'']
        (set_op (update_dict 20 (parse_TaskUpdate done_body))) [report_task])) = 1"
    unfolding d using ne by simp
  from i1 h1
  have c1: "\<exists>e. update_task 20 ''t1'' (parse_TaskUpdate done_body) [] = (Inl e, []) \<and> NotFound e"
    by blast
  from i2 ex h2
  have c2: "\<exists>e. update_task 10 ''t1'' (parse_TaskUpdate empty_body) [report_task] =
      (Inl e, [report_task]) \<and> PersistenceError e"
    by blast
  from i3 ex h3 obtain task pre post where
    t: "get_task ''t1'' [report_task] = Inr task" "[report_task] = pre @ task # post"
      "update_task 20 ''t1'' (parse_TaskUpdate done_body) [report_task] =
         (Inr (updated_with 20 (parse_TaskUpdate done_body) task),
          pre @ updated_with 20 (parse_TaskUpdate done_body) task # post)"
      "get_task ''t1'' (pre @ updated_with 20 (parse_TaskUpdate done_body) task # post) =
         Inr (updated_with 20 (parse_TaskUpdate done_body) task)"
    by blast
  from t(1) g have tk: "task = report_task" by simp
  from t(2) have "length (pre @ task # post) = 1" by (metis length_Cons list.size(3) One_nat_def)
  then have pp: "pre = []" "post = []" by simp_all
  from t(3,4) have c3: "update_task 20 ''t1'' (parse_TaskUpdate done_body) [report_task] =
        (Inr (report_task\<lparr> status := DONE, updated_at := 20 \<rparr>),
         [report_task\<lparr> status := DONE, updated_at := 20 \<rparr>])"
    and c4: "get_task ''t1'' [report_task\<lparr> status := DONE, updated_at := 20 \<rparr>] =
        Inr (report_task\<lparr> status := DONE, updated_at := 20 \<rparr>)"
    unfolding tk pp d by simp_all
  from c1 c2 c3 c4 show ?thesis by blast
qed

lemma put_task_success:
  assumes "get_task i db = Inr task" and "put_task now i body db = (Inr task', db')"
  obtains pre post where "db = pre @ task # post" and "db' = pre @ task' # post"
    and "task' = set_op (update_dict now (parse_TaskUpdate body)) task"
    and "\<forall>x\<in>set pre. id' x \<noteq> i" and "id' task = i"
proof -
  from assms(1) have "find_one [\<lambda>d. id' d = i] db = Some task" by (simp add: get_task_find)
  from find_one_Some_split[OF this] obtain pre post where
    s: "db = pre @ task # post" "\<forall>x\<in>set pre. id' x \<noteq> i" "id' task = i" by auto
  let ?t = "set_op (update_dict now (parse_TaskUpdate body)) task"
  from assms(2) have "update_task now i (parse_TaskUpdate body) db = (Inr task', db')"
    by (simp add: put_task_def)
  then have "(if ?t = task
      then (Inl \<lparr> status_code = 500, detail = ''Failed to update task'' \<rparr>, db)
      else (Inr ?t, pre @ ?t # post)) = (Inr task', db')"
    unfolding update_task_found[OF s, of now "parse_TaskUpdate body"] .
  then have "task' = ?t \<and> db' = pre @ ?t # post"
    by (cases "?t = task") auto
  with s that show thesis by blast
qed

lemma parse_absent [simp]:
  "TaskUpdate.title (parse_TaskUpdate b) = optional_field None (TaskUpdate_body.title b)"
  "TaskUpdate.description (parse_TaskUpdate b) = optional_field None (TaskUpdate_body.description b)"
  "TaskUpdate.due_date (parse_TaskUpdate b) = optional_field None (TaskUpdate_body.due_date b)"
  "TaskUpdate.priority (parse_TaskUpdate b) = optional_field None (TaskUpdate_body.priority b)"
  "TaskUpdate.category (parse_TaskUpdate b) = optional_field None (TaskUpdate_body.category b)"
  "TaskUpdate.status (parse_TaskUpdate b) = optional_field None (TaskUpdate_body.status b)"
  "TaskUpdate.subtasks (parse_TaskUpdate b) = optional_field None (TaskUpdate_body.subtasks b)"
  by (simp_all add: parse_TaskUpdate_def)

text \<open>
  C2. When \<open>get_task\<close> finds a Task and the update of it through the route succeeds, the
  Task returned keeps its id and \<open>created_at\<close>, has \<open>updated_at\<close> equal to the clock
  reading, and keeps the stored value of every field that is absent from the body. With
  the empty body the Task returned is the stored one with only \<open>updated_at\<close> replaced.
  The Task returned is the one stored afterwards, in the place of the old one, and no
  other document of the collection changes.
\<close>

theorem put_task_frame:
  assumes "get_task task_id db = Inr task"
    and "put_task now task_id body db = (Inr task', db')"
  shows "id' task' = id' task \<and> created_at task' = created_at task \<and> updated_at task' = now
    \<and> (TaskUpdate_body.title body = Absent \<longrightarrow> title task' = title task)
    \<and> (TaskUpdate_body.description body = Absent \<longrightarrow> description task' = description task)
    \<and> (TaskUpdate_body.due_date body = Absent \<longrightarrow> due_date task' = due_date task)
    \<and> (TaskUpdate_body.priority body = Absent \<longrightarrow> priority task' = priority task)
    \<and> (TaskUpdate_body.category body = Absent \<longrightarrow> category task' = category task)
    \<and> (TaskUpdate_body.status body = Absent \<longrightarrow> status task' = status task)
    \<and> (TaskUpdate_body.subtasks body = Absent \<longrightarrow> subtasks task' = subtasks task)
    \<and> (body = empty_body \<longrightarrow> task' = task\<lparr> updated_at := now \<rparr>)
    \<and> get_task task_id db' = Inr task'
    \<and> (\<exists>pre post. db = pre @ task # post \<and> db' = pre @ task' # post)"
proof -
  from assms obtain pre post where s: "db = pre @ task # post" "db' = pre @ task' # post"
    and t: "task' = set_op (update_dict now (parse_TaskUpdate body)) task"
    and pre: "\<forall>x\<in>set pre. id' x \<noteq> task_id" and i: "id' task = task_id"
    by (rule put_task_success)
  have f1: "id' task' = id' task" and f2: "created_at task' = created_at task"
    unfolding t by simp_all
  have f3: "updated_at task' = now" unfolding t set_op_update_dict by simp
  have g1: "TaskUpdate_body.title body = Absent \<longrightarrow> title task' = title task"
    unfolding t set_op_update_dict by simp
  have g2: "TaskUpdate_body.description body = Absent \<longrightarrow> description task' = description task"
    unfolding t set_op_update_dict by simp
  have g3: "TaskUpdate_body.due_date body = Absent \<longrightarrow> due_date task' = due_date task"
    unfolding t set_op_update_dict by simp
  have g4: "TaskUpdate_body.priority body = Absent \<longrightarrow> priority task' = priority task"
    unfolding t set_op_update_dict by simp
  have g5: "TaskUpdate_body.category body = Absent \<longrightarrow> category task' = category task"
    unfolding t set_op_update_dict by simp
  have g6: "TaskUpdate_body.status body = Absent \<longrightarrow> status task' = status task"
    unfolding t set_op_update_dict by simp
  have g7: "TaskUpdate_body.subtasks body = Absent \<longrightarrow> subtasks task' = subtasks task"
    unfolding t set_op_update_dict by simp
  have e: "body = empty_body \<longrightarrow> task' = task\<lparr> updated_at := now \<rparr>"
    unfolding t set_op_update_dict by (simp add: empty_body_def)
  have "matches [\<lambda>d. id' d = task_id] task'" using f1 i by simp
  with pre have "find_one [\<lambda>d. id' d = task_id] (pre @ task' # post) = Some task'"
    by (intro find_one_split) simp_all
  then have h: "get_task task_id db' = Inr task'" unfolding s(2) get_task_find .
  from s have x: "\<exists>pre post. db = pre @ task # post \<and> db' = pre @ task' # post" by blast
  from f1 f2 f3 g1 g2 g3 g4 g5 g6 g7 e h x show ?thesis by blast
qed

lemma put_task_example:
  "put_task 20 ''t1'' empty_body [report_task] =
     (Inr (report_task\<lparr> updated_at := 20 \<rparr>), [report_task\<lparr> updated_at := 20 \<rparr>])"
proof -
  have "update_task 20 ''t1'' (parse_TaskUpdate empty_body) ([] @ report_task # []) =
      (if set_op (update_dict 20 (parse_TaskUpdate empty_body)) report_task = report_task
       then (Inl \<lparr> status_code = 500, detail = ''Failed to update task'' \<rparr>, [] @ report_task # [])
       else (Inr (set_op (update_dict 20 (parse_TaskUpdate empty_body)) report_task),
             [] @ set_op (update_dict 20 (parse_TaskUpdate empty_body)) report_task # []))"
    by (rule update_task_found) (simp_all add: report_task_def)
  moreover have "set_op (update_dict 20 (parse_TaskUpdate empty_body)) report_task =
      report_task\<lparr> updated_at := 20 \<rparr>"
    unfolding set_op_update_dict by (simp add: empty_body_def)
  moreover have "report_task\<lparr> updated_at := 20 \<rparr> \<noteq> report_task"
    by (simp add: report_task_def)
  ultimately show ?thesis by (simp add: put_task_def)
qed

theorem put_task_frame_witness:
  "get_task ''t1'' [report_task] = Inr report_task
   \<and> put_task 20 ''t1'' empty_body [report_task] =
       (Inr (report_task\<lparr> updated_at := 20 \<rparr>), [report_task\<lparr> updated_at := 20 \<rparr>])
   \<and> updated_at (report_task\<lparr> updated_at := 20 \<rparr>) = 20
   \<and> status (report_task\<lparr> updated_at := 20 \<rparr>) = status report_task
   \<and> due_date (report_task\<lparr> updated_at := 20 \<rparr>) = due_date report_task
   \<and> get_task ''t1'' [report_task\<lparr> updated_at := 20 \<rparr>] = Inr (report_task\<lparr> updated_at := 20 \<rparr>)"
proof -
  have h1: "get_task ''t1'' [report_task] = Inr report_task"
    by (simp add: get_task_def find_one_def report_task_def)
  note h2 = put_task_example
  from put_task_frame[OF h1 h2] h1 h2 show ?thesis by (simp add: empty_body_def)
qed

lemma optional_null_as_absent [simp]:
  "optional_field None (null_as_absent m) = optional_field None m"
  by (cases m) simp_all

lemma parse_without_nulls: "parse_TaskUpdate (without_nulls body) = parse_TaskUpdate body"
  by (simp add: parse_TaskUpdate_def without_nulls_def)

lemma keeps_values_refl: "keeps_values d d"
  by (auto simp: keeps_values_def)

lemma keeps_values_set_op: "keeps_values d (set_op (update_dict now u) d)"
  unfolding set_op_update_dict keeps_values_def by (auto split: option.split)

lemma keeps_values_update_task:
  "list_all2 keeps_values db (snd (update_task now i u db))"
proof (cases "\<exists>d\<in>set db. id' d = i")
  case False
  then have "\<forall>d\<in>set db. id' d \<noteq> i" by blast
  then show ?thesis
    by (simp add: update_task_missing list_all2_refl keeps_values_refl)
next
  case True
  then obtain task pre post where
    s: "db = pre @ task # post" "\<forall>x\<in>set pre. id' x \<noteq> i" "id' task = i"
    by (rule first_with_id)
  have same: "list_all2 keeps_values db db"
    by (simp add: list_all2_refl keeps_values_refl)
  have "list_all2 keeps_values (pre @ task # post) (pre @ set_op (update_dict now u) task # post)"
    by (intro list_all2_appendI list_all2_refl keeps_values_refl list.rel_intros
        keeps_values_set_op)
  then have changed: "list_all2 keeps_values db (pre @ set_op (update_dict now u) task # post)"
    unfolding s(1) .
  show ?thesis
    unfolding update_task_found[OF s, of now u]
    by (cases "set_op (update_dict now u) task = task")
       (simp_all only: if_True if_False snd_conv same changed simp_thms)
qed

text \<open>
  C9. A body with a \<^verbatim>\<open>null\<close> member is handled exactly as the body with that member left
  out: same response, same collection. So a member that is \<^verbatim>\<open>null\<close> leaves the stored
  value of its field as it was, and no call of the route takes the value of an optional
  field (\<open>description\<close>, \<open>due_date\<close>, \<open>category\<close>) of any stored Task away.
\<close>

theorem put_task_null_is_absent:
  "put_task now task_id body db = put_task now task_id (without_nulls body) db
   \<and> list_all2 keeps_values db (snd (put_task now task_id body db))
   \<and> (\<forall>task task' db'.
         get_task task_id db = Inr task \<and> put_task now task_id body db = (Inr task', db') \<longrightarrow>
           (TaskUpdate_body.title body = Null \<longrightarrow> title task' = title task)
         \<and> (TaskUpdate_body.description body = Null \<longrightarrow> description task' = description task)
         \<and> (TaskUpdate_body.due_date body = Null \<longrightarrow> due_date task' = due_date task)
         \<and> (TaskUpdate_body.priority body = Null \<longrightarrow> priority task' = priority task)
         \<and> (TaskUpdate_body.category body = Null \<longrightarrow> category task' = category task)
         \<and> (TaskUpdate_body.status body = Null \<longrightarrow> status task' = status task)
         \<and> (TaskUpdate_body.subtasks body = Null \<longrightarrow> subtasks task' = subtasks task))"
proof (intro conjI allI impI)
  show "put_task now task_id body db = put_task now task_id (without_nulls body) db"
    by (simp add: put_task_def parse_without_nulls)
  show "list_all2 keeps_values db (snd (put_task now task_id body db))"
    unfolding put_task_def by (rule keeps_values_update_task)
next
  fix task task' db'
  assume "get_task task_id db = Inr task \<and> put_task now task_id body db = (Inr task', db')"
  then have "get_task task_id db = Inr task" "put_task now task_id body db = (Inr task', db')"
    by simp_all
  then obtain pre post where
    t: "task' = set_op (update_dict now (parse_TaskUpdate body)) task"
    by (rule put_task_success)
  { assume "TaskUpdate_body.title body = Null"
    then show "title task' = title task" unfolding t set_op_update_dict by simp }
  { assume "TaskUpdate_body.description body = Null"
    then show "description task' = description task" unfolding t set_op_update_dict by simp }
  { assume "TaskUpdate_body.due_date body = Null"
    then show "due_date task' = due_date task" unfolding t set_op_update_dict by simp }
  { assume "TaskUpdate_body.priority body = Null"
    then show "priority task' = priority task" unfolding t set_op_update_dict by simp }
  { assume "TaskUpdate_body.category body = Null"
    then show "category task' = category task" unfolding t set_op_update_dict by simp }
  { assume "TaskUpdate_body.status body = Null"
    then show "status task' = status task" unfolding t set_op_update_dict by simp }
  { assume "TaskUpdate_body.subtasks body = Null"
    then show "subtasks task' = subtasks task" unfolding t set_op_update_dict by simp }
qed

theorem put_task_null_is_absent_witness:
  "put_task 20 ''t1'' null_due_date_body [report_task] =
     (Inr (report_task\<lparr> updated_at := 20 \<rparr>), [report_task\<lparr> updated_at := 20 \<rparr>])
   \<and> TaskUpdate_body.due_date null_due_date_body = Null
   \<and> due_date (report_task\<lparr> updated_at := 20 \<rparr>) = Some 5
   \<and> list_all2 keeps_values [report_task] [report_task\<lparr> updated_at := 20 \<rparr>]"
proof -
  have w: "without_nulls null_due_date_body = empty_body"
    by (simp add: without_nulls_def null_due_date_body_def empty_body_def)
  have h1: "get_task ''t1'' [report_task] = Inr report_task"
    by (simp add: get_task_def find_one_def report_task_def)
  have n: "TaskUpdate_body.due_date null_due_date_body = Null"
    by (simp add: null_due_date_body_def)
  note inst = put_task_null_is_absent[of 20 "''t1''" null_due_date_body "[report_task]"]
  from inst have p: "put_task 20 ''t1'' null_due_date_body [report_task] =
     (Inr (report_task\<lparr> updated_at := 20 \<rparr>), [report_task\<lparr> updated_at := 20 \<rparr>])"
    unfolding w put_task_example by (rule conjunct1)
  from inst have k: "list_all2 keeps_values [report_task] [report_task\<lparr> updated_at := 20 \<rparr>]"
    unfolding p by simp
  from inst h1 p n have "due_date (report_task\<lparr> updated_at := 20 \<rparr>) = due_date report_task"
    by blast
  then have d: "due_date (report_task\<lparr> updated_at := 20 \<rparr>) = Some 5"
    by (simp add: report_task_def)
  from p n d k show ?thesis by blast
qed

section \<open>Facts about listing\<close>

lemma truthy_status: "truthy (map_option TaskStatus_value s) = (s \<noteq> None)"
proof (cases s)
  case None
  then show ?thesis by simp
next
  case (Some v)
  then show ?thesis by (cases v) simp_all
qed

lemma truthy_priority: "truthy (map_option TaskPriority_value p) = (p \<noteq> None)"
proof (cases p)
  case None
  then show ?thesis by simp
next
  case (Some v)
  then show ?thesis by (cases v) simp_all
qed

lemma truthy_category: "truthy c = (c \<noteq> None \<and> c \<noteq> Some [])"
  by (cases c) simp_all

text \<open>The filter document that \<open>get_tasks\<close> builds matches the documents that are \<open>selected\<close>.\<close>

lemma get_tasks_selected:
  "get_tasks s p c db = take 1000 (sort_key (\<lambda>d. - created_at d) (filter (selected s p c) db))"
proof -
  have "find_docs
     ((if c \<noteq> None \<and> c \<noteq> Some [] then
         (if p \<noteq> None then
            (if s \<noteq> None then [] @ [\<lambda>d. Some (status d) = s] else [])
              @ [\<lambda>d. Some (priority d) = p]
          else if s \<noteq> None then [] @ [\<lambda>d. Some (status d) = s] else [])
           @ [\<lambda>d. category d = c]
       else if p \<noteq> None then
         (if s \<noteq> None then [] @ [\<lambda>d. Some (status d) = s] else [])
           @ [\<lambda>d. Some (priority d) = p]
       else if s \<noteq> None then [] @ [\<lambda>d. Some (status d) = s] else [])) db
     = filter (selected s p c) db"
    unfolding find_docs_def
    by (rule filter_cong[OF refl]) (auto simp: matches_def selected_def)
  then show ?thesis
    unfolding get_tasks_def Let_def to_list_def sort_desc_def truthy_status truthy_priority
    unfolding truthy_category
    by (simp only:)
qed

lemma sorted_desc_sort_key:
  "sorted_wrt (\<lambda>a b. created_at b \<le> created_at a) (sort_key (\<lambda>d. - created_at d) ds)"
proof -
  have "sorted (map (\<lambda>d. - created_at d) (sort_key (\<lambda>d. - created_at d) ds))"
    by (rule sorted_sort_key)
  then show ?thesis by (simp add: sorted_map)
qed

lemma selected_exact_match:
  "c \<noteq> Some [] \<Longrightarrow> selected s p c d = exact_match s p c d"
  "selected s p (Some []) d = exact_match s p None d"
  by (auto simp: selected_def exact_match_def)

lemma get_tasks_two:
  "get_tasks None None c [report_task, plain_task] =
     (if c = None \<or> c = Some [] then [plain_task, report_task]
      else if c = Some ''Work'' then [report_task] else [])"
  unfolding get_tasks_selected
  by (auto simp: selected_def report_task_def plain_task_def)

text \<open>
  C3, as the specification states it, fails: a category filter that is supplied as the
  empty string returns a Task whose category is not the empty string.
\<close>

theorem get_tasks_exact_match_counterexample:
  "report_task \<in> set (get_tasks None None (Some []) [report_task, plain_task])
   \<and> \<not> exact_match None None (Some []) report_task"
  unfolding get_tasks_two by (simp add: exact_match_def report_task_def)

text \<open>
  C3, amended. The Tasks returned are Tasks of the collection that are \<open>selected\<close>: each
  supplied status or priority filter, and each supplied category filter other than the
  empty string, equals the stored field; \<open>selected\<close> is \<open>exact_match\<close> unless the category
  filter is the empty string, and then it is \<open>exact_match\<close> without a category filter.
  When at most 1000 Tasks are selected all of them are returned. The result is ordered by
  \<open>created_at\<close> descending and has at most 1000 Tasks; it is empty when no Task is
  selected; without filters every Task is selected.
\<close>

theorem get_tasks_listing:
  "set (get_tasks s p c db) \<subseteq> {d \<in> set db. selected s p c d}
   \<and> (length (filter (selected s p c) db) \<le> 1000 \<longrightarrow>
        mset (get_tasks s p c db) = mset (filter (selected s p c) db))
   \<and> sorted_wrt (\<lambda>a b. created_at b \<le> created_at a) (get_tasks s p c db)
   \<and> length (get_tasks s p c db) \<le> 1000
   \<and> ((\<forall>d\<in>set db. \<not> selected s p c d) \<longrightarrow> get_tasks s p c db = [])
   \<and> selected None None None d
   \<and> (c \<noteq> Some [] \<longrightarrow> selected s p c d = exact_match s p c d)
   \<and> selected s p (Some []) d = exact_match s p None d"
proof -
  let ?sel = "filter (selected s p c) db"
  let ?srt = "sort_key (\<lambda>d. - created_at d) ?sel"
  have g: "get_tasks s p c db = take 1000 ?srt" by (rule get_tasks_selected)
  have "set (take 1000 ?srt) \<subseteq> set ?srt" by (rule set_take_subset)
  then have a: "set (get_tasks s p c db) \<subseteq> {d \<in> set db. selected s p c d}"
    unfolding g by auto
  have b: "length ?sel \<le> 1000 \<longrightarrow> mset (get_tasks s p c db) = mset ?sel"
    unfolding g by simp
  have "sorted_wrt (\<lambda>a b. created_at b \<le> created_at a) ?srt" by (rule sorted_desc_sort_key)
  then have c: "sorted_wrt (\<lambda>a b. created_at b \<le> created_at a) (get_tasks s p c db)"
    unfolding g by (rule sorted_wrt_take)
  have d: "length (get_tasks s p c db) \<le> 1000" unfolding g by simp
  have e: "(\<forall>d\<in>set db. \<not> selected s p c d) \<longrightarrow> get_tasks s p c db = []"
  proof
    assume "\<forall>d\<in>set db. \<not> selected s p c d"
    then have "?sel = []" by (simp add: filter_empty_conv)
    then show "get_tasks s p c db = []" unfolding g by simp
  qed
  have f: "selected None None None d" by (simp add: selected_def)
  from a b c d e f selected_exact_match(1)[of c s p d] selected_exact_match(2)[of s p d]
  show ?thesis by blast
qed

theorem get_tasks_listing_witness:
  "get_tasks None None (Some ''Home'') [report_task, plain_task] = []
   \<and> mset (get_tasks None None None [report_task, plain_task]) = mset [report_task, plain_task]
   \<and> sorted_wrt (\<lambda>a b. created_at b \<le> created_at a)
        (get_tasks None None None [report_task, plain_task])
   \<and> selected None None (Some ''Work'') report_task = exact_match None None (Some ''Work'') report_task"
proof -
  have h1: "\<forall>d\<in>set [report_task, plain_task]. \<not> selected None None (Some ''Home'') d"
    by (simp add: selected_def report_task_def plain_task_def)
  have h2: "length (filter (selected None None None) [report_task, plain_task]) \<le> 1000"
    by simp
  have h3: "filter (selected None None None) [report_task, plain_task] = [report_task, plain_task]"
    by (simp add: selected_def)
  have h4: "Some ''Work'' \<noteq> Some []" by simp
  from get_tasks_listing[where s=None and p=None and c="Some ''Home''"
      and db="[report_task, plain_task]" and d=report_task] h1
  have c1: "get_tasks None None (Some ''Home'') [report_task, plain_task] = []" by blast
  from get_tasks_listing[where s=None and p=None and c=None
      and db="[report_task, plain_task]" and d=report_task] h2
  have "mset (get_tasks None None None [report_task, plain_task]) =
          mset (filter (selected None None None) [report_task, plain_task])"
    and c3: "sorted_wrt (\<lambda>a b. created_at b \<le> created_at a)
        (get_tasks None None None [report_task, plain_task])"
    by blast+
  then have c2: "mset (get_tasks None None None [report_task, plain_task]) =
      mset [report_task, plain_task]"
    unfolding h3 by simp
  from get_tasks_listing[where s=None and p=None and c="Some ''Work''"
      and db="[report_task, plain_task]" and d=report_task] h4
  have c4: "selected None None (Some ''Work'') report_task =
      exact_match None None (Some ''Work'') report_task" by blast
  from c1 c2 c3 c4 show ?thesis by blast
qed

text \<open>
  C10. A category filter that is the empty string gives the response of the call without
  a category filter, whatever the other filters are. With no other filter, and a
  collection of at most 1000 Tasks, that is every Task of the collection, those with a
  category other than the empty string included.
\<close>

theorem get_tasks_empty_category:
  "get_tasks s p (Some []) db = get_tasks s p None db
   \<and> (length db \<le> 1000 \<longrightarrow> mset (get_tasks None None (Some []) db) = mset db)"
proof
  have "selected s p (Some []) = selected s p None"
    by (simp add: selected_def fun_eq_iff)
  then show "get_tasks s p (Some []) db = get_tasks s p None db"
    unfolding get_tasks_selected by simp
  have "filter (selected None None (Some [])) db = db"
    by (simp add: selected_def)
  then show "length db \<le> 1000 \<longrightarrow> mset (get_tasks None None (Some []) db) = mset db"
    unfolding get_tasks_selected by simp
qed

theorem get_tasks_empty_category_witness:
  "length [report_task, plain_task] \<le> 1000
   \<and> mset (get_tasks None None (Some []) [report_task, plain_task]) = mset [report_task, plain_task]
   \<and> get_tasks None None (Some []) [report_task, plain_task] =
       get_tasks None None None [report_task, plain_task]
   \<and> category report_task = Some ''Work''"
proof -
  have h: "length [report_task, plain_task] \<le> 1000" by simp
  from get_tasks_empty_category[where s=None and p=None and db="[report_task, plain_task]"] h
  have a: "mset (get_tasks None None (Some []) [report_task, plain_task]) =
      mset [report_task, plain_task]"
    and b: "get_tasks None None (Some []) [report_task, plain_task] =
       get_tasks None None None [report_task, plain_task]"
    by blast+
  have c: "category report_task = Some ''Work''" by (simp add: report_task_def)
  from h a b c show ?thesis by blast
qed

section \<open>Facts about creation\<close>

lemma default_field_Some:
  "m \<noteq> Null \<Longrightarrow> default_field d m = Some (case m of Given v \<Rightarrow> v | _ \<Rightarrow> d)"
  by (cases m) simp_all

lemma parse_TaskCreate_valid:
  assumes "TaskCreate_body.title body = Given t"
    and "TaskCreate_body.priority body \<noteq> Null"
    and "TaskCreate_body.status body \<noteq> Null"
    and "TaskCreate_body.subtasks body \<noteq> Null"
  shows "parse_TaskCreate body =
     Some \<lparr> TaskCreate.title = t,
            TaskCreate.description = optional_field (Some []) (TaskCreate_body.description body),
            TaskCreate.due_date = optional_field None (TaskCreate_body.due_date body),
            TaskCreate.priority =
              (case TaskCreate_body.priority body of Given v \<Rightarrow> v | _ \<Rightarrow> MEDIUM),
            TaskCreate.category = optional_field (Some []) (TaskCreate_body.category body),
            TaskCreate.status = (case TaskCreate_body.status body of Given v \<Rightarrow> v | _ \<Rightarrow> TODO),
            TaskCreate.subtasks = (case TaskCreate_body.subtasks body of Given v \<Rightarrow> v | _ \<Rightarrow> []) \<rparr>"
  using assms by (simp add: parse_TaskCreate_def default_field_Some)

lemma create_task_acknowledged:
  "create_task uuid4 now1 now2 (Some oid) task_input db =
     (Inr \<lparr> id' = uuid4,
            title = TaskCreate.title task_input,
            description = TaskCreate.description task_input,
            due_date = TaskCreate.due_date task_input,
            priority = TaskCreate.priority task_input,
            category = TaskCreate.category task_input,
            status = TaskCreate.status task_input,
            subtasks = TaskCreate.subtasks task_input,
            created_at = now1,
            updated_at = now2 \<rparr>,
      db @ [\<lparr> id' = uuid4,
            title = TaskCreate.title task_input,
            description = TaskCreate.description task_input,
            due_date = TaskCreate.due_date task_input,
            priority = TaskCreate.priority task_input,
            category = TaskCreate.category task_input,
            status = TaskCreate.status task_input,
            subtasks = TaskCreate.subtasks task_input,
            created_at = now1,
            updated_at = now2 \<rparr>])"
  by (simp add: create_task_def insert_one_def Let_def)

lemma create_task_unacknowledged:
  "create_task uuid4 now1 now2 None task_input db =
     (Inl \<lparr> status_code = 500, detail = ''Failed to create task'' \<rparr>, db)"
  by (simp add: create_task_def insert_one_def)

text \<open>
  C4. A body with a title that passes validation (no \<^verbatim>\<open>null\<close> for priority, status or
  subtasks) is given to \<open>create_task\<close>. When the store acknowledges the write, the
  response is the created Task and the collection has it appended: its id is the generated
  uuid, \<open>created_at\<close> and \<open>updated_at\<close> are the two clock readings, its title is the body's,
  every member that is absent from the body has its default (empty description and
  category, no due date, priority Medium, status To Do, no subtasks) and every member
  that is given has the value given. When the store's reply has no \<^verbatim>\<open>inserted_id\<close>, the
  call fails with PersistenceError.
\<close>

theorem post_tasks_creates:
  assumes "TaskCreate_body.title body = Given t"
    and "TaskCreate_body.priority body \<noteq> Null"
    and "TaskCreate_body.status body \<noteq> Null"
    and "TaskCreate_body.subtasks body \<noteq> Null"
  shows "(\<forall>oid. reply = Some oid \<longrightarrow>
      (\<exists>task. post_tasks uuid4 now1 now2 reply body db = (Inr task, db @ [task])
         \<and> id' task = uuid4 \<and> created_at task = now1 \<and> updated_at task = now2
         \<and> title task = t
         \<and> (TaskCreate_body.description body = Absent \<longrightarrow> description task = Some [])
         \<and> (TaskCreate_body.due_date body = Absent \<longrightarrow> due_date task = None)
         \<and> (TaskCreate_body.priority body = Absent \<longrightarrow> priority task = MEDIUM)
         \<and> (TaskCreate_body.category body = Absent \<longrightarrow> category task = Some [])
         \<and> (TaskCreate_body.status body = Absent \<longrightarrow> status task = TODO)
         \<and> (TaskCreate_body.subtasks body = Absent \<longrightarrow> subtasks task = [])
         \<and> (\<forall>v. TaskCreate_body.description body = Given v \<longrightarrow> description task = Some v)
         \<and> (\<forall>v. TaskCreate_body.due_date body = Given v \<longrightarrow> due_date task = Some v)
         \<and> (\<forall>v. TaskCreate_body.priority body = Given v \<longrightarrow> priority task = v)
         \<and> (\<forall>v. TaskCreate_body.category body = Given v \<longrightarrow> category task = Some v)
         \<and> (\<forall>v. TaskCreate_body.status body = Given v \<longrightarrow> status task = v)
         \<and> (\<forall>v. TaskCreate_body.subtasks body = Given v \<longrightarrow> subtasks task = v)))
    \<and> (reply = None \<longrightarrow>
      (\<exists>e. post_tasks uuid4 now1 now2 reply body db = (Inl e, db) \<and> PersistenceError e))"
proof (intro conjI allI impI)
  fix oid
  assume r: "reply = Some oid"
  show "\<exists>task. post_tasks uuid4 now1 now2 reply body db = (Inr task, db @ [task])
         \<and> id' task = uuid4 \<and> created_at task = now1 \<and> updated_at task = now2
         \<and> title task = t
         \<and> (TaskCreate_body.description body = Absent \<longrightarrow> description task = Some [])
         \<and> (TaskCreate_body.due_date body = Absent \<longrightarrow> due_date task = None)
         \<and> (TaskCreate_body.priority body = Absent \<longrightarrow> priority task = MEDIUM)
         \<and> (TaskCreate_body.category body = Absent \<longrightarrow> category task = Some [])
         \<and> (TaskCreate_body.status body = Absent \<longrightarrow> status task = TODO)
         \<and> (TaskCreate_body.subtasks body = Absent \<longrightarrow> subtasks task = [])
         \<and> (\<forall>v. TaskCreate_body.description body = Given v \<longrightarrow> description task = Some v)
         \<and> (\<forall>v. TaskCreate_body.due_date body = Given v \<longrightarrow> due_date task = Some v)
         \<and> (\<forall>v. TaskCreate_body.priority body = Given v \<longrightarrow> priority task = v)
         \<and> (\<forall>v. TaskCreate_body.category body = Given v \<longrightarrow> category task = Some v)
         \<and> (\<forall>v. TaskCreate_body.status body = Given v \<longrightarrow> status task = v)
         \<and> (\<forall>v. TaskCreate_body.subtasks body = Given v \<longrightarrow> subtasks task = v)"
    unfolding post_tasks_def parse_TaskCreate_valid[OF assms] r option.case
      create_task_acknowledged
    by (rule exI, intro conjI, rule refl) (simp_all add: assms)
next
  assume r: "reply = None"
  show "\<exists>e. post_tasks uuid4 now1 now2 reply body db = (Inl e, db) \<and> PersistenceError e"
    unfolding post_tasks_def parse_TaskCreate_valid[OF assms] r option.case
      create_task_unacknowledged
    by (simp add: PersistenceError_def)
qed

theorem post_tasks_creates_witness:
  "post_tasks ''t1'' 10 11 (Some 7) title_only_body [] =
     (Inr \<lparr> id' = ''t1'', title = ''Write report'', description = Some [], due_date = None,
            priority = MEDIUM, category = Some [], status = TODO, subtasks = [],
            created_at = 10, updated_at = 11 \<rparr>,
      [\<lparr> id' = ''t1'', title = ''Write report'', description = Some [], due_date = None,
            priority = MEDIUM, category = Some [], status = TODO, subtasks = [],
            created_at = 10, updated_at = 11 \<rparr>])
   \<and> (\<exists>e. post_tasks ''t1'' 10 11 None title_only_body [] = (Inl e, []) \<and> PersistenceError e)"
proof -
  have h: "TaskCreate_body.title title_only_body = Given ''Write report''"
    "TaskCreate_body.priority title_only_body \<noteq> Null"
    "TaskCreate_body.status title_only_body \<noteq> Null"
    "TaskCreate_body.subtasks title_only_body \<noteq> Null"
    by (simp_all add: title_only_body_def)
  have a: "TaskCreate_body.description title_only_body = Absent"
    "TaskCreate_body.due_date title_only_body = Absent"
    "TaskCreate_body.priority title_only_body = Absent"
    "TaskCreate_body.category title_only_body = Absent"
    "TaskCreate_body.status title_only_body = Absent"
    "TaskCreate_body.subtasks title_only_body = Absent"
    by (simp_all add: title_only_body_def)
  from post_tasks_creates[OF h, of "Some 7" "''t1''" 10 11 "[]"] a
  obtain task where p: "post_tasks ''t1'' 10 11 (Some 7) title_only_body [] = (Inr task, [] @ [task])"
    and f: "id' task = ''t1''" "created_at task = 10" "updated_at task = 11"
      "title task = ''Write report''" "description task = Some []" "due_date task = None"
      "priority task = MEDIUM" "category task = Some []" "status task = TODO" "subtasks task = []"
    by blast
  from f have "task = \<lparr> id' = ''t1'', title = ''Write report'', description = Some [], due_date = None,
            priority = MEDIUM, category = Some [], status = TODO, subtasks = [],
            created_at = 10, updated_at = 11 \<rparr>"
    by (cases task) simp
  with p have c1: "post_tasks ''t1'' 10 11 (Some 7) title_only_body [] =
     (Inr \<lparr> id' = ''t1'', title = ''Write report'', description = Some [], due_date = None,
            priority = MEDIUM, category = Some [], status = TODO, subtasks = [],
            created_at = 10, updated_at = 11 \<rparr>,
      [\<lparr> id' = ''t1'', title = ''Write report'', description = Some [], due_date = None,
            priority = MEDIUM, category = Some [], status = TODO, subtasks = [],
            created_at = 10, updated_at = 11 \<rparr>])"
    by simp
  from post_tasks_creates[OF h, of None "''t1''" 10 11 "[]"]
  have c2: "\<exists>e. post_tasks ''t1'' 10 11 None title_only_body [] = (Inl e, []) \<and> PersistenceError e"
    by blast
  from c1 c2 show ?thesis by blast
qed

section \<open>Facts about deletion\<close>

lemma delete_task_missing:
  assumes "\<forall>d\<in>set db. id' d \<noteq> i"
  shows "delete_task i db = (Inl \<lparr> status_code = 404, detail = ''Task not found'' \<rparr>, db)"
proof -
  from assms have "\<forall>x\<in>set db. \<not> matches [\<lambda>d. id' d = i] x" by simp
  then show ?thesis by (simp add: delete_task_def delete_one_no_match)
qed

lemma delete_task_found:
  assumes "db = pre @ task # post" and "\<forall>x\<in>set pre. id' x \<noteq> i" and "id' task = i"
  shows "delete_task i db = (Inr ''Task deleted successfully'', pre @ post)"
proof -
  from assms have "\<forall>x\<in>set pre. \<not> matches [\<lambda>d. id' d = i] x" and "matches [\<lambda>d. id' d = i] task"
    by simp_all
  then show ?thesis unfolding assms(1) delete_task_def by (simp add: delete_one_split)
qed

section \<open>Facts about the subtask update\<close>

lemma set_positional_absent:
  "\<forall>s\<in>set ss. Subtask.id' s \<noteq> i \<Longrightarrow> set_positional_completed i v ss = ss"
  by (induction ss) simp_all

lemma set_positional_present:
  "\<exists>s\<in>set ss. Subtask.id' s = i \<Longrightarrow>
     \<exists>before s after. ss = before @ s # after \<and> Subtask.id' s = i
       \<and> (\<forall>x\<in>set before. Subtask.id' x \<noteq> i)
       \<and> set_positional_completed i v ss = before @ s\<lparr> completed := v \<rparr> # after"
proof (induction ss)
  case Nil
  then show ?case by simp
next
  case (Cons a ss)
  show ?case
  proof (cases "Subtask.id' a = i")
    case True
    then show ?thesis by (intro exI[of _ "[]"] exI[of _ a] exI[of _ ss]) simp
  next
    case False
    with Cons.prems have "\<exists>s\<in>set ss. Subtask.id' s = i" by simp
    from Cons.IH[OF this] obtain before s after where
      "ss = before @ s # after" "Subtask.id' s = i" "\<forall>x\<in>set before. Subtask.id' x \<noteq> i"
      "set_positional_completed i v ss = before @ s\<lparr> completed := v \<rparr> # after"
      by blast
    with False show ?thesis
      by (intro exI[of _ "a # before"] exI[of _ s] exI[of _ after]) simp
  qed
qed

lemma matches_subtask_filter [simp]:
  "matches [\<lambda>d. id' d = i, subtasks_id_is j] d =
     (id' d = i \<and> (\<exists>s\<in>set (subtasks d). Subtask.id' s = j))"
  by (simp add: matches_def subtasks_id_is_def list_ex_iff)

lemma update_subtask_missing:
  assumes "\<forall>d\<in>set db. id' d \<noteq> i"
  shows "update_subtask now i j v db =
           (Inl \<lparr> status_code = 404, detail = ''Task not found'' \<rparr>, db)"
proof -
  from assms have "find_one [\<lambda>d. id' d = i] db = None" by (simp add: find_one_None)
  then show ?thesis by (simp add: update_subtask_def)
qed

lemma update_subtask_no_subtask:
  assumes "\<exists>d\<in>set db. id' d = i"
    and "\<forall>d\<in>set db. id' d = i \<longrightarrow> (\<forall>s\<in>set (subtasks d). Subtask.id' s \<noteq> j)"
  shows "update_subtask now i j v db =
           (Inl \<lparr> status_code = 404, detail = ''Subtask not found'' \<rparr>, db)"
proof -
  from assms(1) obtain task where f: "find_one [\<lambda>d. id' d = i] db = Some task"
    by (rule first_with_id)
  from assms(2) have "\<forall>x\<in>set db. \<not> matches [\<lambda>d. id' d = i, subtasks_id_is j] x"
    by auto
  from update_one_no_match[OF this] f show ?thesis
    by (simp add: update_subtask_def)
qed

lemma update_subtask_found:
  assumes "db = pre @ task # post" and "\<forall>x\<in>set pre. id' x \<noteq> i" and "id' task = i"
    and "\<exists>s\<in>set (subtasks task). Subtask.id' s = j"
  shows "update_subtask now i j v db =
     (if task\<lparr> subtasks := set_positional_completed j v (subtasks task), updated_at := now \<rparr> = task
      then (Inl \<lparr> status_code = 404, detail = ''Subtask not found'' \<rparr>, db)
      else (Inr (task\<lparr> subtasks := set_positional_completed j v (subtasks task),
                       updated_at := now \<rparr>),
            pre @ task\<lparr> subtasks := set_positional_completed j v (subtasks task),
                         updated_at := now \<rparr> # post))"
proof -
  let ?f = "[\<lambda>d. id' d = i]" and ?g = "[\<lambda>d. id' d = i, subtasks_id_is j]"
  let ?upd = "\<lambda>d. d\<lparr> subtasks := set_positional_completed j v (subtasks d), updated_at := now \<rparr>"
  from assms have pre: "\<forall>x\<in>set pre. \<not> matches ?f x" and m: "matches ?f task"
    and pre': "\<forall>x\<in>set pre. \<not> matches ?g x" and n: "matches ?g task"
    by simp_all
  have f: "find_one ?f db = Some task"
    unfolding assms(1) by (rule find_one_split[OF pre m])
  have u: "update_one ?g ?upd db =
     (\<lparr> matched_count = 1, modified_count = (if ?upd task = task then 0 else 1) \<rparr>,
      pre @ ?upd task # post)"
    unfolding assms(1) by (rule update_one_split[OF pre' n])
  have "matches ?f (?upd task)" using assms(3) by simp
  then have f': "find_one ?f (pre @ ?upd task # post) = Some (?upd task)"
    by (rule find_one_split[OF pre])
  show ?thesis
  proof (cases "?upd task = task")
    case True
    then have "update_one ?g ?upd db =
        (\<lparr> matched_count = 1, modified_count = 0 \<rparr>, pre @ task # post)"
      unfolding u by (simp only: if_True simp_thms)
    with f True show ?thesis unfolding update_subtask_def assms(1)[symmetric]
      by (simp add: assms(1))
  next
    case False
    then have "update_one ?g ?upd db =
        (\<lparr> matched_count = 1, modified_count = 1 \<rparr>, pre @ ?upd task # post)"
      unfolding u by (simp only: if_False)
    with f f' False show ?thesis unfolding update_subtask_def
      by simp
  qed
qed

lemma update_subtask_failure:
  assumes "update_subtask now i j v db = (Inl e, db')"
  shows "status_code e = 404 \<and> db' = db"
proof (cases "\<exists>d\<in>set db. id' d = i")
  case False
  then have "\<forall>d\<in>set db. id' d \<noteq> i" by blast
  from update_subtask_missing[OF this, of now j v] assms show ?thesis by auto
next
  case True
  let ?f = "[\<lambda>d. id' d = i]" and ?g = "[\<lambda>d. id' d = i, subtasks_id_is j]"
  let ?upd = "\<lambda>d. d\<lparr> subtasks := set_positional_completed j v (subtasks d), updated_at := now \<rparr>"
  from True obtain task where f: "find_one ?f db = Some task" by (rule first_with_id)
  show ?thesis
  proof (cases "find_one ?g db")
    case None
    then have "\<forall>x\<in>set db. \<not> matches ?g x" by (simp only: find_one_None)
    from update_one_no_match[OF this, of ?upd] f
    have "update_subtask now i j v db =
        (Inl \<lparr> status_code = 404, detail = ''Subtask not found'' \<rparr>, db)"
      by (simp add: update_subtask_def)
    with assms show ?thesis by auto
  next
    case (Some d)
    from find_one_Some_split[OF this] obtain pre post where
      s: "db = pre @ d # post" and m: "matches ?g d" and pre: "\<forall>x\<in>set pre. \<not> matches ?g x"
      by blast
    have u: "update_one ?g ?upd db =
       (\<lparr> matched_count = 1, modified_count = (if ?upd d = d then 0 else 1) \<rparr>,
        pre @ ?upd d # post)"
      unfolding s by (rule update_one_split[OF pre m])
    show ?thesis
    proof (cases "?upd d = d")
      case True
      then have "(if ?upd d = d then 0 else 1) = (0::nat)" and "pre @ ?upd d # post = db"
        unfolding s by (simp_all only: if_True simp_thms)
      with u have "update_one ?g ?upd db = (\<lparr> matched_count = 1, modified_count = 0 \<rparr>, db)"
        by (simp only:)
      with f have "update_subtask now i j v db =
          (Inl \<lparr> status_code = 404, detail = ''Subtask not found'' \<rparr>, db)"
        by (simp add: update_subtask_def)
      with assms show ?thesis by auto
    next
      case False
      then have u': "update_one ?g ?upd db =
          (\<lparr> matched_count = 1, modified_count = 1 \<rparr>, pre @ ?upd d # post)"
        unfolding u by (simp only: if_False)
      from m have "matches ?f (?upd d)" by simp
      then have "\<not> (\<forall>x\<in>set (pre @ ?upd d # post). \<not> matches ?f x)" by auto
      then have "find_one ?f (pre @ ?upd d # post) \<noteq> None" unfolding find_one_None .
      then obtain x where "find_one ?f (pre @ ?upd d # post) = Some x" by blast
      with f u' have "update_subtask now i j v db = (Inr x, pre @ ?upd d # post)"
        by (simp add: update_subtask_def)
      with assms show ?thesis by simp
    qed
  qed
qed

text \<open>
  C5, as the specification states it, fails in one point: the two NotFound cases are
  not surfaced identically. Both have status 404, but the detail of the response tells
  the caller which case it is.
\<close>

theorem update_subtask_identical_counterexample:
  "fst (update_subtask 20 ''t3'' ''s1'' True [report_task]) =
     Inl \<lparr> status_code = 404, detail = ''Task not found'' \<rparr>
   \<and> fst (update_subtask 20 ''t1'' ''s9'' True [report_task]) =
     Inl \<lparr> status_code = 404, detail = ''Subtask not found'' \<rparr>
   \<and> fst (update_subtask 20 ''t3'' ''s1'' True [report_task]) \<noteq>
     fst (update_subtask 20 ''t1'' ''s9'' True [report_task])"
proof -
  have a: "update_subtask 20 ''t3'' ''s1'' True [report_task] =
      (Inl \<lparr> status_code = 404, detail = ''Task not found'' \<rparr>, [report_task])"
    by (rule update_subtask_missing) (simp add: report_task_def)
  have b: "update_subtask 20 ''t1'' ''s9'' True [report_task] =
      (Inl \<lparr> status_code = 404, detail = ''Subtask not found'' \<rparr>, [report_task])"
    by (rule update_subtask_no_subtask)
       (simp_all add: report_task_def subtask_a_def subtask_b_def)
  show ?thesis unfolding a b by simp
qed

text \<open>
  C5, amended. When no Task has the id, \<open>update_subtask\<close> fails with NotFound (404,
  ``Task not found''); when a Task has the id and no Task with the id has a subtask
  with the subtask id, it fails with NotFound (404, ``Subtask not found''); every
  failure is a NotFound and leaves the collection as it was. When the Task that
  \<open>get_task\<close> finds has such a subtask and the call succeeds, the Task returned is the
  stored one with the \<open>completed\<close> flag of its first subtask with that id set to the given
  value and \<open>updated_at\<close> set to the clock reading: every other subtask and every other
  field is unchanged, the Task returned is the one stored afterwards, and no other
  document changes. With unique Task ids a call can only succeed when the Task has such
  a subtask.
\<close>

theorem update_subtask_outcomes:
  "((\<forall>d\<in>set db. id' d \<noteq> task_id) \<longrightarrow>
       update_subtask now task_id sid v db =
         (Inl \<lparr> status_code = 404, detail = ''Task not found'' \<rparr>, db))
   \<and> ((\<exists>d\<in>set db. id' d = task_id) \<and>
       (\<forall>d\<in>set db. id' d = task_id \<longrightarrow> (\<forall>s\<in>set (subtasks d). Subtask.id' s \<noteq> sid)) \<longrightarrow>
       update_subtask now task_id sid v db =
         (Inl \<lparr> status_code = 404, detail = ''Subtask not found'' \<rparr>, db))
   \<and> (\<forall>e db'. update_subtask now task_id sid v db = (Inl e, db') \<longrightarrow> NotFound e \<and> db' = db)
   \<and> (\<forall>task task' db'.
         get_task task_id db = Inr task \<and> (\<exists>s\<in>set (subtasks task). Subtask.id' s = sid) \<and>
         update_subtask now task_id sid v db = (Inr task', db') \<longrightarrow>
           (\<exists>before s after. subtasks task = before @ s # after \<and> Subtask.id' s = sid
              \<and> (\<forall>x\<in>set before. Subtask.id' x \<noteq> sid)
              \<and> task' = task\<lparr> subtasks := before @ s\<lparr> completed := v \<rparr> # after,
                              updated_at := now \<rparr>)
           \<and> get_task task_id db' = Inr task'
           \<and> (\<exists>pre post. db = pre @ task # post \<and> db' = pre @ task' # post))
   \<and> (distinct (map id' db) \<longrightarrow>
        (\<forall>task task' db'.
           get_task task_id db = Inr task \<and>
           update_subtask now task_id sid v db = (Inr task', db') \<longrightarrow>
             (\<exists>s\<in>set (subtasks task). Subtask.id' s = sid)))"
proof (intro conjI impI allI)
  assume "\<forall>d\<in>set db. id' d \<noteq> task_id"
  then show "update_subtask now task_id sid v db =
      (Inl \<lparr> status_code = 404, detail = ''Task not found'' \<rparr>, db)"
    by (rule update_subtask_missing)
next
  assume "(\<exists>d\<in>set db. id' d = task_id) \<and>
       (\<forall>d\<in>set db. id' d = task_id \<longrightarrow> (\<forall>s\<in>set (subtasks d). Subtask.id' s \<noteq> sid))"
  then show "update_subtask now task_id sid v db =
         (Inl \<lparr> status_code = 404, detail = ''Subtask not found'' \<rparr>, db)"
    by (intro update_subtask_no_subtask) blast+
next
  fix e db'
  assume "update_subtask now task_id sid v db = (Inl e, db')"
  from update_subtask_failure[OF this] show "NotFound e" and "db' = db"
    by (simp_all add: NotFound_def)
next
  fix task task' db'
  assume a: "get_task task_id db = Inr task \<and> (\<exists>s\<in>set (subtasks task). Subtask.id' s = sid) \<and>
         update_subtask now task_id sid v db = (Inr task', db')"
  then have f: "find_one [\<lambda>d. id' d = task_id] db = Some task"
    and has: "\<exists>s\<in>set (subtasks task). Subtask.id' s = sid"
    and ok: "update_subtask now task_id sid v db = (Inr task', db')"
    by (simp_all add: get_task_find)
  from find_one_Some_split[OF f] obtain pre post where
    s: "db = pre @ task # post" "\<forall>x\<in>set pre. id' x \<noteq> task_id" "id' task = task_id" by auto
  let ?t = "task\<lparr> subtasks := set_positional_completed sid v (subtasks task), updated_at := now \<rparr>"
  from ok have "(if ?t = task
      then (Inl \<lparr> status_code = 404, detail = ''Subtask not found'' \<rparr>, db)
      else (Inr ?t, pre @ ?t # post)) = (Inr task', db')"
    unfolding update_subtask_found[OF s has, of now v] .
  then have t: "task' = ?t" and d: "db' = pre @ ?t # post"
    by (cases "?t = task"; auto)+
  from set_positional_present[OF has, of v] obtain before x after where
    b: "subtasks task = before @ x # after" "Subtask.id' x = sid"
       "\<forall>y\<in>set before. Subtask.id' y \<noteq> sid"
       "set_positional_completed sid v (subtasks task) = before @ x\<lparr> completed := v \<rparr> # after"
    by blast
  from b show "\<exists>before s after. subtasks task = before @ s # after \<and> Subtask.id' s = sid
              \<and> (\<forall>x\<in>set before. Subtask.id' x \<noteq> sid)
              \<and> task' = task\<lparr> subtasks := before @ s\<lparr> completed := v \<rparr> # after,
                              updated_at := now \<rparr>"
    unfolding t by (intro exI[of _ before] exI[of _ x] exI[of _ after]) simp
  have "matches [\<lambda>d. id' d = task_id] task'" unfolding t using s(3) by simp
  with s(2) have "find_one [\<lambda>d. id' d = task_id] (pre @ task' # post) = Some task'"
    by (intro find_one_split) simp_all
  then show "get_task task_id db' = Inr task'" unfolding d t get_task_find .
  from s(1) d t show "\<exists>pre post. db = pre @ task # post \<and> db' = pre @ task' # post"
    by blast
next
  fix task task' db'
  assume dist: "distinct (map id' db)"
    and a: "get_task task_id db = Inr task \<and>
           update_subtask now task_id sid v db = (Inr task', db')"
  then have f: "find_one [\<lambda>d. id' d = task_id] db = Some task"
    and ok: "update_subtask now task_id sid v db = (Inr task', db')"
    by (simp_all add: get_task_find)
  from find_one_Some_split[OF f] obtain pre post where
    s: "db = pre @ task # post" "\<forall>x\<in>set pre. id' x \<noteq> task_id" "id' task = task_id" by auto
  from dist have "id' task \<notin> id' ` set post" unfolding s(1) by simp
  with s(3) have post: "\<forall>x\<in>set post. id' x \<noteq> task_id" by (metis imageI)
  show "\<exists>s\<in>set (subtasks task). Subtask.id' s = sid"
  proof (rule ccontr)
    assume "\<not> (\<exists>s\<in>set (subtasks task). Subtask.id' s = sid)"
    with s(2) post have "\<forall>d\<in>set db. id' d = task_id \<longrightarrow> (\<forall>s\<in>set (subtasks d). Subtask.id' s \<noteq> sid)"
      unfolding s(1) by auto
    moreover have "\<exists>d\<in>set db. id' d = task_id" unfolding s(1) using s(3) by simp
    ultimately have "update_subtask now task_id sid v db =
        (Inl \<lparr> status_code = 404, detail = ''Subtask not found'' \<rparr>, db)"
      by (intro update_subtask_no_subtask)
    with ok show False by simp
  qed
qed

lemma update_subtask_example:
  "update_subtask 20 ''t1'' ''s1'' True [report_task] =
     (Inr report_task_a_done, [report_task_a_done])"
proof -
  have "update_subtask 20 ''t1'' ''s1'' True ([] @ report_task # []) =
     (if report_task\<lparr> subtasks := set_positional_completed ''s1'' True (subtasks report_task),
                      updated_at := 20 \<rparr> = report_task
      then (Inl \<lparr> status_code = 404, detail = ''Subtask not found'' \<rparr>, [] @ report_task # [])
      else (Inr (report_task\<lparr> subtasks := set_positional_completed ''s1'' True (subtasks report_task),
                       updated_at := 20 \<rparr>),
            [] @ report_task\<lparr> subtasks := set_positional_completed ''s1'' True (subtasks report_task),
                         updated_at := 20 \<rparr> # []))"
    by (rule update_subtask_found) (simp_all add: report_task_def subtask_a_def)
  moreover have "report_task\<lparr> subtasks := set_positional_completed ''s1'' True (subtasks report_task),
                      updated_at := 20 \<rparr> = report_task_a_done"
    by (simp add: report_task_a_done_def report_task_def subtask_a_def)
  moreover have "report_task_a_done \<noteq> report_task"
    by (simp add: report_task_a_done_def report_task_def)
  ultimately show ?thesis by simp
qed

theorem update_subtask_outcomes_witness:
  "update_subtask 20 ''t3'' ''s1'' True [report_task] =
     (Inl \<lparr> status_code = 404, detail = ''Task not found'' \<rparr>, [report_task])
   \<and> update_subtask 20 ''t1'' ''s9'' True [report_task] =
     (Inl \<lparr> status_code = 404, detail = ''Subtask not found'' \<rparr>, [report_task])
   \<and> update_subtask 20 ''t1'' ''s1'' True [report_task] =
     (Inr report_task_a_done, [report_task_a_done])
   \<and> get_task ''t1'' [report_task_a_done] = Inr report_task_a_done
   \<and> (\<exists>before s after. subtasks report_task = before @ s # after \<and> Subtask.id' s = ''s1''
        \<and> report_task_a_done =
            report_task\<lparr> subtasks := before @ s\<lparr> completed := True \<rparr> # after, updated_at := 20 \<rparr>)"
proof -
  have h1: "\<forall>d\<in>set [report_task]. id' d \<noteq> ''t3''" by (simp add: report_task_def)
  have h2: "(\<exists>d\<in>set [report_task]. id' d = ''t1'') \<and>
       (\<forall>d\<in>set [report_task]. id' d = ''t1'' \<longrightarrow> (\<forall>s\<in>set (subtasks d). Subtask.id' s \<noteq> ''s9''))"
    by (simp add: report_task_def subtask_a_def subtask_b_def)
  have h3: "get_task ''t1'' [report_task] = Inr report_task"
    by (simp add: get_task_def find_one_def report_task_def)
  have h4: "\<exists>s\<in>set (subtasks report_task). Subtask.id' s = ''s1''"
    by (simp add: report_task_def subtask_a_def)
  note h5 = update_subtask_example
  from update_subtask_outcomes[of "[report_task]" "''t3''" 20 "''s1''" True] h1
  have c1: "update_subtask 20 ''t3'' ''s1'' True [report_task] =
     (Inl \<lparr> status_code = 404, detail = ''Task not found'' \<rparr>, [report_task])" by blast
  from update_subtask_outcomes[of "[report_task]" "''t1''" 20 "''s9''" True] h2
  have c2: "update_subtask 20 ''t1'' ''s9'' True [report_task] =
     (Inl \<lparr> status_code = 404, detail = ''Subtask not found'' \<rparr>, [report_task])" by blast
  from update_subtask_outcomes[of "[report_task]" "''t1''" 20 "''s1''" True] h3 h4 h5
  have c4: "get_task ''t1'' [report_task_a_done] = Inr report_task_a_done"
    and c5: "\<exists>before s after. subtasks report_task = before @ s # after \<and> Subtask.id' s = ''s1''
        \<and> (\<forall>x\<in>set before. Subtask.id' x \<noteq> ''s1'')
        \<and> report_task_a_done =
            report_task\<lparr> subtasks := before @ s\<lparr> completed := True \<rparr> # after, updated_at := 20 \<rparr>"
    by blast+
  from c5 have c5': "\<exists>before s after. subtasks report_task = before @ s # after \<and> Subtask.id' s = ''s1''
        \<and> report_task_a_done =
            report_task\<lparr> subtasks := before @ s\<lparr> completed := True \<rparr> # after, updated_at := 20 \<rparr>"
    by blast
  from c1 c2 h5 c4 c5' show ?thesis by blast
qed

section \<open>Facts about the dashboard\<close>

lemma overdue_count_filter:
  "overdue_count (get_dashboard_stats now db) = length (filter (overdue now) db)"
proof -
  have "matches [\<lambda>d. lt_op (due_date d) now, \<lambda>d. status d \<noteq> DONE] = overdue now"
    by (auto simp: matches_def overdue_def fun_eq_iff split: option.splits)
  then show ?thesis
    by (simp add: get_dashboard_stats_def count_documents_def)
qed

lemma post_tasks_success:
  assumes "post_tasks uuid4 now1 now2 reply body db = (Inr task, db')"
  shows "db' = db @ [task]" and "id' task = uuid4"
    and "created_at task = now1" and "updated_at task = now2"
proof -
  from assms obtain task_input where p: "parse_TaskCreate body = Some task_input"
    by (cases "parse_TaskCreate body") (simp_all add: post_tasks_def)
  with assms have c: "create_task uuid4 now1 now2 reply task_input db = (Inr task, db')"
    by (simp add: post_tasks_def)
  then obtain oid where r: "reply = Some oid"
    by (cases reply) (simp_all add: create_task_unacknowledged)
  from c show "db' = db @ [task]" and "id' task = uuid4"
    and "created_at task = now1" and "updated_at task = now2"
    unfolding r create_task_acknowledged by auto
qed

text \<open>
  C6. The overdue count of \<open>get_dashboard_stats\<close> is the number of Tasks of the
  collection that are \<open>overdue\<close> at the clock reading: a due date strictly before it and a
  status other than Done. A Task created with a past due date and status To Do raises
  the count by one. After a successful update of an overdue Task with the body
  \<^verbatim>\<open>{"status": "Done"}\<close> the Task is not overdue at any time, and the count is one less.
\<close>

theorem overdue_count_counts:
  "overdue_count (get_dashboard_stats now db) = length (filter (overdue now) db)
   \<and> overdue now d = ((\<exists>due. due_date d = Some due \<and> due < now) \<and> status d \<noteq> DONE)
   \<and> (\<forall>task db'.
        post_tasks uuid4 now1 now2 reply body db = (Inr task, db') \<and>
        due_date task = Some due \<and> due < now \<and> status task = TODO \<longrightarrow>
          overdue now task \<and>
          overdue_count (get_dashboard_stats now db') =
            overdue_count (get_dashboard_stats now db) + 1)
   \<and> (\<forall>task task' db'.
        get_task task_id db = Inr task \<and> overdue now task \<and>
        put_task now' task_id done_body db = (Inr task', db') \<longrightarrow>
          status task' = DONE \<and> \<not> overdue n task' \<and>
          overdue_count (get_dashboard_stats now db') + 1 =
            overdue_count (get_dashboard_stats now db))"
proof (intro conjI allI impI)
  show "overdue_count (get_dashboard_stats now db) = length (filter (overdue now) db)"
    by (rule overdue_count_filter)
  show "overdue now d = ((\<exists>due. due_date d = Some due \<and> due < now) \<and> status d \<noteq> DONE)"
    by (auto simp: overdue_def split: option.splits)
next
  fix task db'
  assume a: "post_tasks uuid4 now1 now2 reply body db = (Inr task, db') \<and>
        due_date task = Some due \<and> due < now \<and> status task = TODO"
  then have "post_tasks uuid4 now1 now2 reply body db = (Inr task, db')" by simp
  then have d: "db' = db @ [task]" by (rule post_tasks_success)
  from a show o: "overdue now task" by (simp add: overdue_def)
  then show "overdue_count (get_dashboard_stats now db') =
            overdue_count (get_dashboard_stats now db) + 1"
    unfolding overdue_count_filter d by simp
next
  fix task task' db'
  assume a: "get_task task_id db = Inr task \<and> overdue now task \<and>
        put_task now' task_id done_body db = (Inr task', db')"
  then have g: "get_task task_id db = Inr task" and o: "overdue now task"
    and p: "put_task now' task_id done_body db = (Inr task', db')" by simp_all
  from g p obtain pre post where s: "db = pre @ task # post" "db' = pre @ task' # post"
    and t: "task' = set_op (update_dict now' (parse_TaskUpdate done_body)) task"
    by (rule put_task_success)
  show st: "status task' = DONE"
    unfolding t set_op_update_dict by (simp add: done_body_def empty_body_def)
  then show no: "\<not> overdue n task'" by (simp add: overdue_def)
  from st have "\<not> overdue now task'" by (simp add: overdue_def)
  with o show "overdue_count (get_dashboard_stats now db') + 1 =
            overdue_count (get_dashboard_stats now db)"
    unfolding overdue_count_filter s by simp
qed

lemma post_tasks_report:
  "post_tasks ''t1'' 10 10 (Some 7) report_body [plain_task] =
     (Inr report_task, [plain_task, report_task])"
  by (simp add: post_tasks_def parse_TaskCreate_def report_body_def create_task_acknowledged
      report_task_def)

lemma put_task_report_done:
  "put_task 30 ''t1'' done_body [plain_task, report_task] =
     (Inr report_task_done, [plain_task, report_task_done])"
proof -
  have "update_task 30 ''t1'' (parse_TaskUpdate done_body) ([plain_task] @ report_task # []) =
      (if set_op (update_dict 30 (parse_TaskUpdate done_body)) report_task = report_task
       then (Inl \<lparr> status_code = 500, detail = ''Failed to update task'' \<rparr>,
             [plain_task] @ report_task # [])
       else (Inr (set_op (update_dict 30 (parse_TaskUpdate done_body)) report_task),
             [plain_task] @ set_op (update_dict 30 (parse_TaskUpdate done_body)) report_task # []))"
    by (rule update_task_found) (simp_all add: report_task_def plain_task_def)
  moreover have "set_op (update_dict 30 (parse_TaskUpdate done_body)) report_task = report_task_done"
    unfolding set_op_update_dict
    by (simp add: done_body_def empty_body_def report_task_done_def)
  moreover have "report_task_done \<noteq> report_task"
    by (simp add: report_task_done_def report_task_def)
  ultimately show ?thesis by (simp add: put_task_def)
qed

theorem overdue_count_counts_witness:
  "overdue_count (get_dashboard_stats 20 [plain_task]) = 0
   \<and> post_tasks ''t1'' 10 10 (Some 7) report_body [plain_task] =
       (Inr report_task, [plain_task, report_task])
   \<and> overdue 20 report_task
   \<and> overdue_count (get_dashboard_stats 20 [plain_task, report_task]) = 1
   \<and> put_task 30 ''t1'' done_body [plain_task, report_task] =
       (Inr report_task_done, [plain_task, report_task_done])
   \<and> \<not> overdue 40 report_task_done
   \<and> overdue_count (get_dashboard_stats 20 [plain_task, report_task_done]) = 0"
proof -
  note inst = overdue_count_counts[where now=20 and db="[plain_task]" and ?uuid4.0="''t1''"
      and ?now1.0=10 and ?now2.0=10 and reply="Some 7" and body=report_body and due=5
      and d=report_task]
  note inst' = overdue_count_counts[where now=20 and db="[plain_task, report_task]"
      and task_id="''t1''" and now'=30 and n=40]
  have c0: "overdue_count (get_dashboard_stats 20 [plain_task]) = 0"
    using inst by (simp add: overdue_def plain_task_def)
  have h1: "due_date report_task = Some 5 \<and> (5::int) < 20 \<and> status report_task = TODO"
    by (simp add: report_task_def)
  from inst post_tasks_report h1
  have c2: "overdue 20 report_task"
    and "overdue_count (get_dashboard_stats 20 [plain_task, report_task]) =
      overdue_count (get_dashboard_stats 20 [plain_task]) + 1"
    by blast+
  with c0 have c3: "overdue_count (get_dashboard_stats 20 [plain_task, report_task]) = 1"
    by simp
  have h2: "get_task ''t1'' [plain_task, report_task] = Inr report_task"
    by (simp add: get_task_def find_one_def report_task_def plain_task_def)
  from inst' h2 c2 put_task_report_done
  have c5: "\<not> overdue 40 report_task_done"
    and "overdue_count (get_dashboard_stats 20 [plain_task, report_task_done]) + 1 =
      overdue_count (get_dashboard_stats 20 [plain_task, report_task])"
    by blast+
  with c3 have c6: "overdue_count (get_dashboard_stats 20 [plain_task, report_task_done]) = 0"
    by simp
  from c0 post_tasks_report c2 c3 put_task_report_done c5 c6 show ?thesis by blast
qed

section \<open>Facts about runs\<close>

lemma update_one_pointwise:
  "list_all2 (\<lambda>a b. b = a \<or> b = upd a) db (snd (update_one f upd db))"
  by (induction db) (auto simp: list_all2_refl split: prod.splits)

lemma delete_one_subset: "set (snd (delete_one f db)) \<subseteq> set db"
  by (induction db) (auto split: prod.splits)

lemma find_one_member: "find_one f db = Some d \<Longrightarrow> d \<in> set db"
  by (auto simp: find_one_def find_Some_iff)

lemma update_task_pointwise:
  "list_all2 (\<lambda>a b. b = a \<or> b = set_op (update_dict now u) a) db (snd (update_task now i u db))"
proof (cases "find_one [\<lambda>d. id' d = i] db")
  case None
  then show ?thesis by (simp add: update_task_def list_all2_refl)
next
  case (Some task)
  obtain result db' where
    u: "update_one [\<lambda>d. id' d = i] (set_op (update_dict now u)) db = (result, db')"
    by (cases "update_one [\<lambda>d. id' d = i] (set_op (update_dict now u)) db")
  from update_one_pointwise[of "set_op (update_dict now u)" db "[\<lambda>d. id' d = i]"]
  have "list_all2 (\<lambda>a b. b = a \<or> b = set_op (update_dict now u) a) db db'"
    unfolding u by simp
  moreover have "snd (update_task now i u db) = db'"
    unfolding update_task_def Some u by (simp split: option.split)
  ultimately show ?thesis by simp
qed

lemma update_task_shown:
  "update_task now i u db = (Inr x, db') \<Longrightarrow> x \<in> set db'"
  unfolding update_task_def
  by (auto split: option.splits prod.splits if_splits dest: find_one_member)

lemma update_subtask_pointwise:
  "list_all2
     (\<lambda>a b. b = a \<or>
        b = a\<lparr> subtasks := set_positional_completed j v (subtasks a), updated_at := now \<rparr>)
     db (snd (update_subtask now i j v db))"
proof (cases "find_one [\<lambda>d. id' d = i] db")
  case None
  then show ?thesis by (simp add: update_subtask_def list_all2_refl)
next
  case (Some task)
  let ?upd = "\<lambda>d. d\<lparr> subtasks := set_positional_completed j v (subtasks d), updated_at := now \<rparr>"
  obtain result db' where
    u: "update_one [\<lambda>d. id' d = i, subtasks_id_is j] ?upd db = (result, db')"
    by (cases "update_one [\<lambda>d. id' d = i, subtasks_id_is j] ?upd db")
  from update_one_pointwise[of ?upd db "[\<lambda>d. id' d = i, subtasks_id_is j]"]
  have "list_all2 (\<lambda>a b. b = a \<or> b = ?upd a) db db'"
    unfolding u by simp
  moreover have "snd (update_subtask now i j v db) = db'"
    unfolding update_subtask_def Some u by (simp split: option.split)
  ultimately show ?thesis by simp
qed

lemma update_subtask_shown:
  "update_subtask now i j v db = (Inr x, db') \<Longrightarrow> x \<in> set db'"
  unfolding update_subtask_def
  by (auto split: option.splits prod.splits if_splits dest: find_one_member)

lemma post_tasks_state:
  "snd (post_tasks uuid4 now1 now2 reply body db) = db \<or>
   (\<exists>task. post_tasks uuid4 now1 now2 reply body db = (Inr task, db @ [task])
      \<and> created_at task = now1 \<and> updated_at task = now2)"
proof (cases "post_tasks uuid4 now1 now2 reply body db")
  case (Pair response db')
  show ?thesis
  proof (cases response)
    case (Inl e)
    with Pair have "db' = db"
      by (auto simp: post_tasks_def create_task_def insert_one_def Let_def
          split: option.splits if_splits)
    with Pair show ?thesis by simp
  next
    case (Inr task)
    with Pair have p: "post_tasks uuid4 now1 now2 reply body db = (Inr task, db')" by simp
    from post_tasks_success[OF p] p show ?thesis by auto
  qed
qed

text \<open>Pointwise changes that keep \<open>created_at\<close> and set \<open>updated_at\<close> no earlier keep the invariant.\<close>

lemma timestamps_ok_pointwise:
  assumes "timestamps_ok c db" and "c \<le> c'"
    and "list_all2 (\<lambda>a b. b = a \<or> (created_at b = created_at a \<and> updated_at b = c')) db db'"
  shows "timestamps_ok c' db'"
  using assms(3,1) unfolding timestamps_ok_def
proof (induction rule: list_all2_induct)
  case Nil
  then show ?case by simp
next
  case (Cons a db b db')
  with \<open>c \<le> c'\<close> show ?case by auto
qed

lemma timestamps_ok_mono: "timestamps_ok c db \<Longrightarrow> c \<le> c' \<Longrightarrow> timestamps_ok c' db"
  unfolding timestamps_ok_def list_all_iff by auto

lemma timestamps_ok_subset:
  "timestamps_ok c db \<Longrightarrow> set db' \<subseteq> set db \<Longrightarrow> timestamps_ok c db'"
  unfolding timestamps_ok_def list_all_iff by auto

lemma timestamps_ok_member:
  "timestamps_ok c db \<Longrightarrow> t \<in> set db \<Longrightarrow> created_at t \<le> updated_at t"
  unfolding timestamps_ok_def list_all_iff by auto

lemma serve_step:
  assumes ok: "timestamps_ok c db" and srt: "sorted (clock_reads r)"
    and lb: "\<forall>x\<in>set (clock_reads r). c \<le> x"
  shows "timestamps_ok (last (c # clock_reads r)) (snd (serve r db))"
    and "\<forall>t\<in>set (fst (serve r db)). created_at t \<le> updated_at t"
proof -
  have "timestamps_ok (last (c # clock_reads r)) (snd (serve r db))
      \<and> (\<forall>t\<in>set (fst (serve r db)). created_at t \<le> updated_at t)"
  proof (cases r)
    case (Create_task uuid4 now1 now2 reply body)
    with srt lb have le: "c \<le> now1" "now1 \<le> now2" by simp_all
    obtain response db' where p: "post_tasks uuid4 now1 now2 reply body db = (response, db')"
      by (cases "post_tasks uuid4 now1 now2 reply body db")
    have st: "timestamps_ok now2 db'"
    proof -
      from post_tasks_state[of uuid4 now1 now2 reply body db]
      consider "db' = db"
        | task where "db' = db @ [task]" "created_at task = now1" "updated_at task = now2"
        unfolding p by auto
      then show ?thesis
      proof cases
        case 1
        with ok le show ?thesis by (auto intro: timestamps_ok_mono)
      next
        case 2
        from ok le have "timestamps_ok now2 db" by (auto intro: timestamps_ok_mono)
        with 2 le show ?thesis by (simp add: timestamps_ok_def)
      qed
    qed
    have sh: "\<forall>t\<in>set (shown response). created_at t \<le> updated_at t"
    proof (cases response)
      case (Inl e)
      then show ?thesis by simp
    next
      case (Inr task)
      with p have "post_tasks uuid4 now1 now2 reply body db = (Inr task, db')" by simp
      from post_tasks_success(3,4)[OF this] le Inr show ?thesis by simp
    qed
    from st sh show ?thesis unfolding Create_task by (simp add: p)
  next
    case (Get_tasks status' priority' category')
    have "set (get_tasks status' priority' category' db) \<subseteq> set db"
      unfolding get_tasks_selected using set_take_subset by fastforce
    with ok show ?thesis unfolding Get_tasks
      by (auto dest: timestamps_ok_member)
  next
    case (Get_task task_id)
    have "\<forall>t\<in>set (shown (get_task task_id db)). t \<in> set db"
      by (auto simp: get_task_def split: option.splits dest: find_one_member)
    with ok show ?thesis unfolding Get_task
      by (auto dest: timestamps_ok_member)
  next
    case (Update_task now task_id body)
    with lb have le: "c \<le> now" by simp
    obtain response db' where
      p: "update_task now task_id (parse_TaskUpdate body) db = (response, db')"
      by (cases "update_task now task_id (parse_TaskUpdate body) db")
    from update_task_pointwise[where now=now and u="parse_TaskUpdate body" and db=db and i=task_id]
    have "list_all2 (\<lambda>a b. b = a \<or> b = set_op (update_dict now (parse_TaskUpdate body)) a) db db'"
      unfolding p by simp
    then have "list_all2 (\<lambda>a b. b = a \<or> (created_at b = created_at a \<and> updated_at b = now)) db db'"
      by (rule list_all2_mono) (auto simp: set_op_update_dict)
    with ok le have st: "timestamps_ok now db'" by (rule timestamps_ok_pointwise)
    have "\<forall>t\<in>set (shown response). t \<in> set db'"
      using p by (cases response) (auto dest: update_task_shown)
    with st have sh: "\<forall>t\<in>set (shown response). created_at t \<le> updated_at t"
      by (auto dest: timestamps_ok_member)
    from st sh show ?thesis unfolding Update_task by (simp add: put_task_def p)
  next
    case (Delete_task task_id)
    have "snd (delete_task task_id db) = snd (delete_one [\<lambda>d. id' d = task_id] db)"
      by (simp add: delete_task_def split: prod.splits)
    then have "set (snd (delete_task task_id db)) \<subseteq> set db"
      by (simp add: delete_one_subset)
    with ok show ?thesis unfolding Delete_task
      by (auto intro: timestamps_ok_subset)
  next
    case (Get_dashboard_stats now)
    with lb have "c \<le> now" by simp
    with ok show ?thesis unfolding Get_dashboard_stats
      by (auto intro: timestamps_ok_mono)
  next
    case (Update_subtask now task_id subtask_id v)
    with lb have le: "c \<le> now" by simp
    obtain response db' where
      p: "update_subtask now task_id subtask_id v db = (response, db')"
      by (cases "update_subtask now task_id subtask_id v db")
    from update_subtask_pointwise[where j=subtask_id and v=v and now=now and db=db and i=task_id]
    have "list_all2
        (\<lambda>a b. b = a \<or>
           b = a\<lparr> subtasks := set_positional_completed subtask_id v (subtasks a),
                   updated_at := now \<rparr>) db db'"
      unfolding p by simp
    then have "list_all2 (\<lambda>a b. b = a \<or> (created_at b = created_at a \<and> updated_at b = now)) db db'"
      by (rule list_all2_mono) auto
    with ok le have st: "timestamps_ok now db'" by (rule timestamps_ok_pointwise)
    have "\<forall>t\<in>set (shown response). t \<in> set db'"
      using p by (cases response) (auto dest: update_subtask_shown)
    with st have sh: "\<forall>t\<in>set (shown response). created_at t \<le> updated_at t"
      by (auto dest: timestamps_ok_member)
    from st sh show ?thesis unfolding Update_subtask by (simp add: p)
  qed
  then show "timestamps_ok (last (c # clock_reads r)) (snd (serve r db))"
    and "\<forall>t\<in>set (fst (serve r db)). created_at t \<le> updated_at t"
    by simp_all
qed

lemma run_invariant:
  assumes "timestamps_ok c db" and "sorted (concat (map clock_reads rs))"
    and "\<forall>x\<in>set (concat (map clock_reads rs)). c \<le> x"
  shows "(\<forall>t\<in>set (fst (run rs db)). created_at t \<le> updated_at t)
    \<and> (\<exists>c'. timestamps_ok c' (snd (run rs db)))"
  using assms
proof (induction rs arbitrary: c db)
  case Nil
  then show ?case by auto
next
  case (Cons r rs)
  let ?c = "last (c # clock_reads r)"
  from Cons.prems(2) have srt: "sorted (clock_reads r)"
    and rest: "sorted (concat (map clock_reads rs))"
    and cross: "\<forall>x\<in>set (clock_reads r). \<forall>y\<in>set (concat (map clock_reads rs)). x \<le> y"
    by (simp_all add: sorted_append)
  from Cons.prems(3) have lb: "\<forall>x\<in>set (clock_reads r). c \<le> x"
    and lb': "\<forall>y\<in>set (concat (map clock_reads rs)). c \<le> y" by simp_all
  have next_lb: "\<forall>y\<in>set (concat (map clock_reads rs)). ?c \<le> y"
  proof (cases "clock_reads r = []")
    case True
    with lb' show ?thesis by simp
  next
    case False
    then have "last (clock_reads r) \<in> set (clock_reads r)" by (rule last_in_set)
    with cross False show ?thesis by simp
  qed
  obtain seen db1 where s: "serve r db = (seen, db1)" by (cases "serve r db")
  from serve_step[OF Cons.prems(1) srt lb]
  have ok1: "timestamps_ok ?c db1" and seen: "\<forall>t\<in>set seen. created_at t \<le> updated_at t"
    unfolding s by simp_all
  from Cons.IH[OF ok1 rest next_lb] seen show ?case
    by (auto simp: s split: prod.splits)
qed

lemma created_at_pointwise:
  "list_all2 (\<lambda>a b. b = a \<or> created_at b = created_at a) db db' \<Longrightarrow>
     map created_at db' = map created_at db"
  by (induction rule: list_all2_induct) auto

text \<open>
  C8, as the specification states it, fails: both timestamps are readings of the wall
  clock, and nothing keeps a later reading from being the earlier time. A Task created
  at clock reading 10 and updated at clock reading 5 is stored, and returned, with
  \<open>updated_at\<close> before \<open>created_at\<close>.
\<close>

theorem created_at_le_updated_at_counterexample:
  "run backward_requests [] =
     ([report_task, report_task\<lparr> status := DONE, updated_at := 5 \<rparr>],
      [report_task\<lparr> status := DONE, updated_at := 5 \<rparr>])
   \<and> \<not> created_at (report_task\<lparr> status := DONE, updated_at := 5 \<rparr>)
         \<le> updated_at (report_task\<lparr> status := DONE, updated_at := 5 \<rparr>)"
proof -
  have a: "post_tasks ''t1'' 10 10 (Some 7) report_body [] = (Inr report_task, [report_task])"
    by (simp add: post_tasks_def parse_TaskCreate_def report_body_def create_task_acknowledged
        report_task_def)
  have "update_task 5 ''t1'' (parse_TaskUpdate done_body) ([] @ report_task # []) =
      (if set_op (update_dict 5 (parse_TaskUpdate done_body)) report_task = report_task
       then (Inl \<lparr> status_code = 500, detail = ''Failed to update task'' \<rparr>,
             [] @ report_task # [])
       else (Inr (set_op (update_dict 5 (parse_TaskUpdate done_body)) report_task),
             [] @ set_op (update_dict 5 (parse_TaskUpdate done_body)) report_task # []))"
    by (rule update_task_found) (simp_all add: report_task_def)
  moreover have "set_op (update_dict 5 (parse_TaskUpdate done_body)) report_task =
      report_task\<lparr> status := DONE, updated_at := 5 \<rparr>"
    unfolding set_op_update_dict by (simp add: done_body_def empty_body_def)
  moreover have "report_task\<lparr> status := DONE, updated_at := 5 \<rparr> \<noteq> report_task"
    by (simp add: report_task_def)
  ultimately have b: "put_task 5 ''t1'' done_body [report_task] =
      (Inr (report_task\<lparr> status := DONE, updated_at := 5 \<rparr>),
       [report_task\<lparr> status := DONE, updated_at := 5 \<rparr>])"
    by (simp add: put_task_def)
  have c: "\<not> created_at (report_task\<lparr> status := DONE, updated_at := 5 \<rparr>)
         \<le> updated_at (report_task\<lparr> status := DONE, updated_at := 5 \<rparr>)"
    by (simp add: report_task_def)
  show ?thesis using c by (simp add: backward_requests_def a b)
qed

text \<open>
  C8, amended. Serve any sequence of requests from the empty collection, with clock
  readings that never decrease in the order the handlers take them. Then every Task that
  a response shows on the way and every Task of the collection at the end has
  \<open>created_at\<close> no later than \<open>updated_at\<close>. As every prefix of such a sequence is one,
  this holds at every point. The two operations that refresh \<open>updated_at\<close>, the update
  and the subtask update, leave the \<open>created_at\<close> of every Task as it is, whatever the
  clock reads.
\<close>

theorem created_at_le_updated_at:
  "(sorted (concat (map clock_reads rs)) \<longrightarrow>
      (\<forall>t\<in>set (fst (run rs [])) \<union> set (snd (run rs [])). created_at t \<le> updated_at t))
   \<and> map created_at (snd (put_task now i body db)) = map created_at db
   \<and> map created_at (snd (update_subtask now i j v db)) = map created_at db"
proof (intro conjI impI)
  assume srt: "sorted (concat (map clock_reads rs))"
  define c where "c = (case concat (map clock_reads rs) of [] \<Rightarrow> 0 | x # xs \<Rightarrow> x)"
  from srt have lb: "\<forall>x\<in>set (concat (map clock_reads rs)). c \<le> x"
    unfolding c_def by (cases "concat (map clock_reads rs)") auto
  have "timestamps_ok c []" by (simp add: timestamps_ok_def)
  from run_invariant[OF this srt lb]
  obtain c' where seen: "\<forall>t\<in>set (fst (run rs [])). created_at t \<le> updated_at t"
    and "timestamps_ok c' (snd (run rs []))" by blast
  then show "\<forall>t\<in>set (fst (run rs [])) \<union> set (snd (run rs [])). created_at t \<le> updated_at t"
    by (auto dest: timestamps_ok_member)
next
  have "list_all2 (\<lambda>a b. b = a \<or> created_at b = created_at a) db
      (snd (update_task now i (parse_TaskUpdate body) db))"
    by (rule list_all2_mono[OF update_task_pointwise]) auto
  then show "map created_at (snd (put_task now i body db)) = map created_at db"
    unfolding put_task_def by (rule created_at_pointwise)
next
  have "list_all2 (\<lambda>a b. b = a \<or> created_at b = created_at a) db
      (snd (update_subtask now i j v db))"
    by (rule list_all2_mono[OF update_subtask_pointwise]) auto
  then show "map created_at (snd (update_subtask now i j v db)) = map created_at db"
    by (rule created_at_pointwise)
qed

lemma run_report_requests:
  "run report_requests [] =
     ([report_task, report_task_done, report_task_done], [report_task_done])"
proof -
  have a: "post_tasks ''t1'' 10 10 (Some 7) report_body [] = (Inr report_task, [report_task])"
    by (simp add: post_tasks_def parse_TaskCreate_def report_body_def create_task_acknowledged
        report_task_def)
  have "update_task 30 ''t1'' (parse_TaskUpdate done_body) ([] @ report_task # []) =
      (if set_op (update_dict 30 (parse_TaskUpdate done_body)) report_task = report_task
       then (Inl \<lparr> status_code = 500, detail = ''Failed to update task'' \<rparr>,
             [] @ report_task # [])
       else (Inr (set_op (update_dict 30 (parse_TaskUpdate done_body)) report_task),
             [] @ set_op (update_dict 30 (parse_TaskUpdate done_body)) report_task # []))"
    by (rule update_task_found) (simp_all add: report_task_def)
  moreover have "set_op (update_dict 30 (parse_TaskUpdate done_body)) report_task = report_task_done"
    unfolding set_op_update_dict
    by (simp add: done_body_def empty_body_def report_task_done_def)
  moreover have "report_task_done \<noteq> report_task"
    by (simp add: report_task_done_def report_task_def)
  ultimately have b: "put_task 30 ''t1'' done_body [report_task] =
      (Inr report_task_done, [report_task_done])"
    by (simp add: put_task_def)
  have c: "get_task ''t1'' [report_task_done] = Inr report_task_done"
    by (simp add: get_task_def find_one_def report_task_done_def report_task_def)
  show ?thesis by (simp add: report_requests_def a b c)
qed

theorem created_at_le_updated_at_witness:
  "sorted (concat (map clock_reads report_requests))
   \<and> run report_requests [] =
       ([report_task, report_task_done, report_task_done], [report_task_done])
   \<and> created_at report_task \<le> updated_at report_task
   \<and> created_at report_task_done \<le> updated_at report_task_done"
proof -
  have h: "sorted (concat (map clock_reads report_requests))"
    by (simp add: report_requests_def)
  from created_at_le_updated_at[where rs=report_requests] h
  have "\<forall>t\<in>set (fst (run report_requests [])) \<union> set (snd (run report_requests [])).
      created_at t \<le> updated_at t"
    by blast
  then have "created_at report_task \<le> updated_at report_task"
    and "created_at report_task_done \<le> updated_at report_task_done"
    unfolding run_report_requests by simp_all
  with h run_report_requests show ?thesis by blast
qed

section \<open>Facts about ids\<close>

lemma delete_one_distinct:
  "distinct (map g db) \<Longrightarrow> distinct (map g (snd (delete_one f db)))"
proof (induction db)
  case Nil
  then show ?case by simp
next
  case (Cons d ds)
  have "set (snd (delete_one f ds)) \<subseteq> set ds" by (rule delete_one_subset)
  with Cons show ?case by (auto split: prod.splits)
qed

lemma ids_pointwise:
  "list_all2 (\<lambda>a b. b = a \<or> id' b = id' a) db db' \<Longrightarrow> map id' db' = map id' db"
  by (induction rule: list_all2_induct) auto

lemma serve_ids:
  assumes "distinct (map id' db)" and "set (map id' db) \<subseteq> set used"
    and "fresh_ids (r # rs) used"
  shows "\<exists>used'. distinct (map id' (snd (serve r db)))
    \<and> set (map id' (snd (serve r db))) \<subseteq> set used' \<and> fresh_ids rs used'"
proof (cases r)
  case (Create_task uuid4 now1 now2 reply body)
  with assms(3) have fr: "uuid4 \<notin> set used" "fresh_ids rs (uuid4 # used)" by simp_all
  obtain response db' where p: "post_tasks uuid4 now1 now2 reply body db = (response, db')"
    by (cases "post_tasks uuid4 now1 now2 reply body db")
  have "distinct (map id' db') \<and> set (map id' db') \<subseteq> set (uuid4 # used)"
  proof (cases response)
    case (Inl e)
    from post_tasks_state[of uuid4 now1 now2 reply body db] have "db' = db"
      unfolding p Inl by auto
    with assms show ?thesis by auto
  next
    case (Inr task)
    with p have "post_tasks uuid4 now1 now2 reply body db = (Inr task, db')" by simp
    from post_tasks_success(1,2)[OF this] have "db' = db @ [task]" "id' task = uuid4" .
    with assms(1,2) fr(1) show ?thesis by auto
  qed
  moreover have "snd (serve r db) = db'" unfolding Create_task by (simp add: p)
  ultimately show ?thesis using fr(2) by (intro exI[of _ "uuid4 # used"]) simp
next
  case (Get_tasks status' priority' category')
  with assms show ?thesis by auto
next
  case (Get_task task_id)
  with assms show ?thesis by auto
next
  case (Update_task now task_id body)
  have "list_all2 (\<lambda>a b. b = a \<or> id' b = id' a) db
      (snd (update_task now task_id (parse_TaskUpdate body) db))"
    by (rule list_all2_mono[OF update_task_pointwise]) auto
  then have "map id' (snd (put_task now task_id body db)) = map id' db"
    unfolding put_task_def by (rule ids_pointwise)
  moreover have "snd (serve r db) = snd (put_task now task_id body db)"
    unfolding Update_task by (simp split: prod.splits)
  moreover from assms(3) have "fresh_ids rs used" unfolding Update_task by simp
  ultimately show ?thesis using assms(1,2) by (intro exI[of _ used]) simp
next
  case (Delete_task task_id)
  have s: "snd (serve r db) = snd (delete_one [\<lambda>d. id' d = task_id] db)"
    unfolding Delete_task by (simp add: delete_task_def split: prod.splits)
  have "set (snd (delete_one [\<lambda>d. id' d = task_id] db)) \<subseteq> set db"
    by (rule delete_one_subset)
  with assms(2) have "set (map id' (snd (serve r db))) \<subseteq> set used"
    unfolding s by auto
  moreover from assms(1) have "distinct (map id' (snd (serve r db)))"
    unfolding s by (rule delete_one_distinct)
  moreover from assms(3) have "fresh_ids rs used" unfolding Delete_task by simp
  ultimately show ?thesis by blast
next
  case (Get_dashboard_stats now)
  with assms show ?thesis by auto
next
  case (Update_subtask now task_id subtask_id v)
  have "list_all2 (\<lambda>a b. b = a \<or> id' b = id' a) db
      (snd (update_subtask now task_id subtask_id v db))"
    by (rule list_all2_mono[OF update_subtask_pointwise]) auto
  then have "map id' (snd (update_subtask now task_id subtask_id v db)) = map id' db"
    by (rule ids_pointwise)
  moreover have "snd (serve r db) = snd (update_subtask now task_id subtask_id v db)"
    unfolding Update_subtask by (simp split: prod.splits)
  moreover from assms(3) have "fresh_ids rs used" unfolding Update_subtask by simp
  ultimately show ?thesis using assms(1,2) by (intro exI[of _ used]) simp
qed

lemma run_distinct_ids:
  assumes "distinct (map id' db)" and "set (map id' db) \<subseteq> set used" and "fresh_ids rs used"
  shows "distinct (map id' (snd (run rs db)))"
  using assms
proof (induction rs arbitrary: db used)
  case Nil
  then show ?case by simp
next
  case (Cons r rs)
  from serve_ids[OF Cons.prems] obtain used' where
    "distinct (map id' (snd (serve r db)))"
    "set (map id' (snd (serve r db))) \<subseteq> set used'" "fresh_ids rs used'"
    by blast
  from Cons.IH[OF this] show ?case by (auto split: prod.splits)
qed

text \<open>
  C7. \<open>delete_task\<close> fails with NotFound, and removes nothing, when no Task has the id
  (the only case in which \<open>delete_one\<close> removes no record). When a Task has the id, the
  first such Task is removed and the acknowledgement is returned. In a collection whose
  ids are unique, \<open>get_task\<close> with the id fails with NotFound after a successful delete;
  such is every collection that a sequence of requests with fresh uuids makes of the
  empty one.
\<close>

theorem delete_task_outcomes:
  "((\<forall>d\<in>set db. id' d \<noteq> task_id) \<longrightarrow>
      (\<exists>e. delete_task task_id db = (Inl e, db) \<and> NotFound e))
   \<and> ((\<exists>d\<in>set db. id' d = task_id) \<longrightarrow>
      (\<exists>pre task post. db = pre @ task # post \<and> id' task = task_id
         \<and> get_task task_id db = Inr task
         \<and> delete_task task_id db = (Inr ''Task deleted successfully'', pre @ post)))
   \<and> (deleted_count (fst (delete_one [\<lambda>d. id' d = task_id] db)) \<noteq> 1 \<longrightarrow>
      (\<exists>e. delete_task task_id db = (Inl e, db) \<and> NotFound e))
   \<and> (distinct (map id' db) \<longrightarrow>
      (\<forall>ack db'. delete_task task_id db = (Inr ack, db') \<longrightarrow>
         (\<exists>e. get_task task_id db' = Inl e \<and> NotFound e)))
   \<and> (fresh_ids rs [] \<longrightarrow> distinct (map id' (snd (run rs []))))"
proof (intro conjI impI allI)
  assume "\<forall>d\<in>set db. id' d \<noteq> task_id"
  then show "\<exists>e. delete_task task_id db = (Inl e, db) \<and> NotFound e"
    by (simp add: delete_task_missing NotFound_def)
next
  assume "\<exists>d\<in>set db. id' d = task_id"
  then obtain task pre post where f: "find_one [\<lambda>d. id' d = task_id] db = Some task" and
    s: "db = pre @ task # post" "\<forall>x\<in>set pre. id' x \<noteq> task_id" "id' task = task_id"
    by (rule first_with_id)
  from f have "get_task task_id db = Inr task" by (simp add: get_task_find)
  with s delete_task_found[OF s]
  show "\<exists>pre task post. db = pre @ task # post \<and> id' task = task_id
         \<and> get_task task_id db = Inr task
         \<and> delete_task task_id db = (Inr ''Task deleted successfully'', pre @ post)"
    by blast
next
  assume n: "deleted_count (fst (delete_one [\<lambda>d. id' d = task_id] db)) \<noteq> 1"
  have "\<forall>d\<in>set db. id' d \<noteq> task_id"
  proof (rule ccontr)
    assume "\<not> (\<forall>d\<in>set db. id' d \<noteq> task_id)"
    then have "\<exists>d\<in>set db. id' d = task_id" by blast
    then obtain task pre post where
      s: "db = pre @ task # post" "\<forall>x\<in>set pre. id' x \<noteq> task_id" "id' task = task_id"
      by (rule first_with_id)
    then have "\<forall>x\<in>set pre. \<not> matches [\<lambda>d. id' d = task_id] x"
      and "matches [\<lambda>d. id' d = task_id] task" by simp_all
    then have "deleted_count (fst (delete_one [\<lambda>d. id' d = task_id] db)) = 1"
      unfolding s(1) by (simp add: delete_one_split)
    with n show False by simp
  qed
  then show "\<exists>e. delete_task task_id db = (Inl e, db) \<and> NotFound e"
    by (simp add: delete_task_missing NotFound_def)
next
  fix ack db'
  assume dist: "distinct (map id' db)" and del: "delete_task task_id db = (Inr ack, db')"
  have ex: "\<exists>d\<in>set db. id' d = task_id"
  proof (rule ccontr)
    assume "\<not> (\<exists>d\<in>set db. id' d = task_id)"
    then have "\<forall>d\<in>set db. id' d \<noteq> task_id" by blast
    from delete_task_missing[OF this] del show False by simp
  qed
  then obtain task pre post where
    s: "db = pre @ task # post" "\<forall>x\<in>set pre. id' x \<noteq> task_id" "id' task = task_id"
    by (rule first_with_id)
  from delete_task_found[OF s] del have db': "db' = pre @ post" by simp
  from dist have "id' task \<notin> id' ` set post" unfolding s(1) by simp
  with s(3) have "\<forall>x\<in>set post. id' x \<noteq> task_id" by (metis imageI)
  with s(2) have "\<forall>d\<in>set db'. \<not> matches [\<lambda>d. id' d = task_id] d"
    unfolding db' by auto
  then have "find_one [\<lambda>d. id' d = task_id] db' = None" by (simp only: find_one_None)
  then show "\<exists>e. get_task task_id db' = Inl e \<and> NotFound e"
    by (simp add: get_task_def NotFound_def)
next
  assume "fresh_ids rs []"
  then show "distinct (map id' (snd (run rs [])))"
    by (intro run_distinct_ids[where used="[]"]) simp_all
qed

theorem delete_task_outcomes_witness:
  "(\<exists>e. delete_task ''t3'' [report_task, plain_task] = (Inl e, [report_task, plain_task])
       \<and> NotFound e)
   \<and> delete_task ''t1'' [report_task, plain_task] = (Inr ''Task deleted successfully'', [plain_task])
   \<and> (\<exists>e. get_task ''t1'' [plain_task] = Inl e \<and> NotFound e)
   \<and> fresh_ids report_requests []
   \<and> distinct (map id' (snd (run report_requests [])))"
proof -
  have h1: "\<forall>d\<in>set [report_task, plain_task]. id' d \<noteq> ''t3''"
    by (simp add: report_task_def plain_task_def)
  have h2: "distinct (map id' [report_task, plain_task])"
    by (simp add: report_task_def plain_task_def)
  have h3: "fresh_ids report_requests []"
    by (simp add: report_requests_def)
  have d: "delete_task ''t1'' [report_task, plain_task] =
      (Inr ''Task deleted successfully'', [plain_task])"
    using delete_task_found[of "[report_task, plain_task]" "[]" report_task "[plain_task]" "''t1''"]
    by (simp add: report_task_def)
  from delete_task_outcomes[where db="[report_task, plain_task]" and task_id="''t3''"] h1
  have c1: "\<exists>e. delete_task ''t3'' [report_task, plain_task] = (Inl e, [report_task, plain_task])
       \<and> NotFound e" by blast
  from delete_task_outcomes[where db="[report_task, plain_task]" and task_id="''t1''"] h2 d
  have c3: "\<exists>e. get_task ''t1'' [plain_task] = Inl e \<and> NotFound e" by blast
  from delete_task_outcomes[where rs=report_requests] h3
  have c4: "distinct (map id' (snd (run report_requests [])))" by blast
  from c1 d c3 h3 c4 show ?thesis by blast
qed

end
